theory Spec2Isabelle
  imports Complex_Main "HOL-Library.Log_Nat"
begin

section \<open>JavaScript numbers\<close>

text \<open>
  The prices of the engine are JavaScript Numbers: IEEE-754 binary64 values. A finite
  double is represented by the rational it denotes (the two zeros are one value: no
  operation of the engine tells them apart); \<open>NaN\<close> and the two infinities are values of
  their own. Every arithmetic operation computes the exact rational result and rounds it
  to the nearest double, ties to even, as the hardware does.
\<close>

datatype jsnum = NaN | NegInf | Fin rat | PosInf

text \<open>The binary exponent of a positive rational: \<open>2 ^ e \<le> a < 2 ^ (e + 1)\<close>.\<close>

definition ilog2 :: "rat \<Rightarrow> int" where
  "ilog2 a = (if 1 \<le> a then bitlen \<lfloor>a\<rfloor> - 1 else - bitlen (\<lceil>1 / a\<rceil> - 1))"

definition roundTiesToEven :: "rat \<Rightarrow> int" where
  "roundTiesToEven q =
     (let f = \<lfloor>q\<rfloor>; r = q - of_int f
      in if r < 1 / 2 then f else if 1 / 2 < r then f + 1 else if even f then f else f + 1)"

text \<open>
  The spacing of the doubles around a positive rational: 53 significant bits, and the
  fixed spacing \<open>2 ^ - 1074\<close> of the subnormal range below \<open>2 ^ - 1022\<close>.
\<close>

definition ulp :: "rat \<Rightarrow> rat" where
  "ulp a = 2 powi (max (ilog2 a) (- 1022) - 52)"

text \<open>Rounding of a positive rational to a multiple of its spacing.\<close>

definition round_pos :: "rat \<Rightarrow> rat" where
  "round_pos a = of_int (roundTiesToEven (a / ulp a)) * ulp a"

text \<open>
  The Number value of a rational. A result of magnitude \<open>2 ^ 1024\<close> after rounding has
  left the range of the doubles and is the infinity of its sign.
\<close>

definition round_double :: "rat \<Rightarrow> jsnum" where
  "round_double x =
     (if x = 0 then Fin 0
      else let y = round_pos \<bar>x\<bar>
           in if 2 ^ 1024 \<le> y then (if 0 < x then PosInf else NegInf)
              else Fin (if 0 < x then y else - y))"

text \<open>The relational operator \<open><\<close>: false as soon as one side is \<open>NaN\<close>.\<close>

fun js_lt :: "jsnum \<Rightarrow> jsnum \<Rightarrow> bool" where
  "js_lt NaN b = False"
| "js_lt a NaN = False"
| "js_lt (Fin x) (Fin y) = (x < y)"
| "js_lt a NegInf = False"
| "js_lt PosInf b = False"
| "js_lt NegInf b = True"
| "js_lt a PosInf = True"

text \<open>The operator \<open>>=\<close>: \<open>a >= b\<close> holds when \<open>a < b\<close> is false and not undefined.\<close>

fun js_ge :: "jsnum \<Rightarrow> jsnum \<Rightarrow> bool" where
  "js_ge NaN b = False"
| "js_ge a NaN = False"
| "js_ge a b = (\<not> js_lt a b)"

text \<open>Strict equality \<open>===\<close> on Numbers: \<open>NaN\<close> equals nothing.\<close>

fun js_eq :: "jsnum \<Rightarrow> jsnum \<Rightarrow> bool" where
  "js_eq NaN b = False"
| "js_eq a NaN = False"
| "js_eq a b = (a = b)"

fun js_neg :: "jsnum \<Rightarrow> jsnum" where
  "js_neg NaN = NaN"
| "js_neg NegInf = PosInf"
| "js_neg PosInf = NegInf"
| "js_neg (Fin x) = Fin (- x)"

text \<open>The operator \<open>+\<close> on Numbers.\<close>

fun js_add :: "jsnum \<Rightarrow> jsnum \<Rightarrow> jsnum" where
  "js_add NaN b = NaN"
| "js_add a NaN = NaN"
| "js_add (Fin x) (Fin y) = round_double (x + y)"
| "js_add PosInf NegInf = NaN"
| "js_add NegInf PosInf = NaN"
| "js_add PosInf b = PosInf"
| "js_add NegInf b = NegInf"
| "js_add a PosInf = PosInf"
| "js_add a NegInf = NegInf"

text \<open>The operator \<open>-\<close> on Numbers: the sum with the negated right operand.\<close>

definition js_sub :: "jsnum \<Rightarrow> jsnum \<Rightarrow> jsnum" where
  "js_sub a b = js_add a (js_neg b)"

text \<open>\<open>Math.min\<close> of two Numbers: \<open>NaN\<close> as soon as one argument is.\<close>

fun js_min :: "jsnum \<Rightarrow> jsnum \<Rightarrow> jsnum" where
  "js_min NaN b = NaN"
| "js_min a NaN = NaN"
| "js_min a b = (if js_lt b a then b else a)"

section \<open>Number and text\<close>

text \<open>
  \<open>parseFloat\<close> skips leading white space and reads the longest prefix that is a decimal
  literal: an optional sign, then \<open>Infinity\<close> or digits with an optional fraction and an
  optional exponent. Without such a prefix the result is \<open>NaN\<close>. Strings are sequences of
  ASCII characters; the white space characters beyond ASCII are outside the model.
\<close>

definition isDigit :: "char \<Rightarrow> bool" where
  "isDigit c = (c \<in> set ''0123456789'')"

definition isWhiteSpace :: "char \<Rightarrow> bool" where
  "isWhiteSpace c = (of_char c \<in> {9, 10, 11, 12, 13, 32 :: nat})"

definition digitsValue :: "string \<Rightarrow> int" where
  "digitsValue ds = foldl (\<lambda>n c. 10 * n + (of_char c - 48)) 0 ds"

text \<open>
  The exponent part at the head of the rest of a literal: \<open>e\<close> or \<open>E\<close>, an optional
  sign and at least one digit; anything else is not part of the literal.
\<close>

definition exponentPart :: "string \<Rightarrow> int" where
  "exponentPart s =
     (case s of
        [] \<Rightarrow> 0
      | c # t \<Rightarrow>
          if c = CHR ''e'' \<or> c = CHR ''E'' then
            (case t of
               [] \<Rightarrow> 0
             | d # u \<Rightarrow>
                 if d = CHR ''-'' then
                   (if takeWhile isDigit u = [] then 0 else - digitsValue (takeWhile isDigit u))
                 else if d = CHR ''+'' then digitsValue (takeWhile isDigit u)
                 else digitsValue (takeWhile isDigit t))
          else 0)"

definition unsignedLiteral :: "string \<Rightarrow> rat option" where
  "unsignedLiteral s =
     (let ip = takeWhile isDigit s; r = dropWhile isDigit s;
          fp = (case r of [] \<Rightarrow> [] | c # t \<Rightarrow> if c = CHR ''.'' then takeWhile isDigit t else []);
          r' = (case r of [] \<Rightarrow> [] | c # t \<Rightarrow> if c = CHR ''.'' then dropWhile isDigit t else r)
      in if ip = [] \<and> fp = [] then None
         else Some (of_int (digitsValue (ip @ fp)) * 10 powi (exponentPart r' - int (length fp))))"

definition parseFloat :: "string \<Rightarrow> jsnum" where
  "parseFloat str =
     (let s = dropWhile isWhiteSpace str;
          neg = (s \<noteq> [] \<and> hd s = CHR ''-'');
          t = (if s \<noteq> [] \<and> (hd s = CHR ''-'' \<or> hd s = CHR ''+'') then tl s else s)
      in if take 8 t = ''Infinity'' then (if neg then NegInf else PosInf)
         else case unsignedLiteral t of
                None \<Rightarrow> NaN
              | Some m \<Rightarrow> round_double (if neg then - m else m))"

text \<open>
  \<open>Number.prototype.toFixed(2)\<close>. For a finite number of magnitude below \<open>10 ^ 21\<close> the
  result is the sign (kept when the number is negative, whatever it rounds to) and the
  integer \<open>n\<close> nearest to a hundred times the magnitude, the larger on a tie, written with
  at least three digits and a point before the last two. For every other number
  \<open>toFixed\<close> hands over to the general Number-to-String conversion, whose digits are not
  modelled: the result is then \<open>Unfixed\<close> of the number.
\<close>

datatype price_text = Fixed string | Unfixed jsnum

definition digitChar :: "int \<Rightarrow> char" where
  "digitChar n = ''0123456789'' ! nat n"

function decimalDigits :: "int \<Rightarrow> string" where
  "decimalDigits n =
     (if n < 10 then [digitChar n] else decimalDigits (n div 10) @ [digitChar (n mod 10)])"
  by pat_completeness auto
termination
  by (relation "measure nat") auto

definition fixed2 :: "int \<Rightarrow> string" where
  "fixed2 n =
     (let m = decimalDigits n; m = replicate (3 - length m) CHR ''0'' @ m
      in take (length m - 2) m @ ''.'' @ drop (length m - 2) m)"

fun toFixed2 :: "jsnum \<Rightarrow> price_text" where
  "toFixed2 (Fin x) =
     (if 10 ^ 21 \<le> \<bar>x\<bar> then Unfixed (Fin x)
      else Fixed ((if x < 0 then ''-'' else []) @ fixed2 \<lfloor>\<bar>x\<bar> * 100 + 1 / 2\<rfloor>))"
| "toFixed2 a = Unfixed a"

section \<open>The Remote Catalog Gateway\<close>

text \<open>
  The records of the Gateway as the queries of the engine select them. A deal is a
  metaobject: an identifier and its fields, each a key and a value. The prices of a
  variant are the strings of the Gateway; a compare-at price that is \<open>null\<close> reaches
  \<open>parseFloat\<close> as the string \<open>null\<close>.
\<close>

record variant =
  variant_id :: string
  price :: string
  compareAtPrice :: string

record product =
  title :: string
  variants :: "variant list"

record deal =
  deal_id :: string
  deal_fields :: "(string \<times> string) list"

text \<open>
  The four requests of the engine, named after the query texts of the source. The
  product of a deal is the value of its field \<open>product\<close>, absent when the deal has no such
  field. The start-marker mutation exists in \<open>index.js\<close> only.
\<close>

datatype request =
    FETCH_DEALS_QUERY
  | FETCH_PRODUCT_QUERY "string option"
  | UPDATE_PRODUCT_VARIANT_MUTATION string price_text
  | UPDATE_DEAL_MUTATION string

text \<open>
  What \<open>client.request\<close> gives back: it throws (\<open>Thrown\<close>), or returns an object whose
  \<open>errors\<close> are set (\<open>Errors\<close>), or returns \<open>data\<close>. The data of a mutation are its
  \<open>userErrors\<close>; the product of a product query may be \<open>null\<close>. Data of another shape than
  the caller reads (\<open>Unshaped\<close> is data with nothing in it) make the property access of
  the caller throw a \<open>TypeError\<close>. The deals and variants inside data are whole records.
\<close>

datatype data =
    Metaobjects "deal list"
  | ProductData "product option"
  | ProductVariantUpdate "string list"
  | MetaobjectUpdate "string list"
  | Unshaped

datatype response = Thrown | Errors | Data data

text \<open>
  The surroundings of the engine: the Gateway behind \<open>client.request\<close>, which answers a
  request from a state of the world \<open>'w\<close> and may change it; the clock read by
  \<open>new Date()\<close>; the time value of \<open>new Date(s)\<close> for a string, \<open>None\<close> for an invalid
  date; and what the world does during the sleep between two cycles. Nothing is assumed
  about any of them.
\<close>

record 'w runtime =
  client_request :: "request \<Rightarrow> 'w \<Rightarrow> response \<times> 'w"
  clock :: "'w \<Rightarrow> int"
  Date_parse :: "string \<Rightarrow> int option"
  sleep :: "'w \<Rightarrow> 'w"

text \<open>The world together with the requests the engine has issued so far, in order.\<close>

record 'w io =
  world :: 'w
  sent :: "request list"

definition request :: "'w runtime \<Rightarrow> request \<Rightarrow> 'w io \<Rightarrow> response \<times> 'w io" where
  "request rt req s =
     (let (resp, w) = client_request rt req (world s)
      in (resp, \<lparr>world = w, sent = sent s @ [req]\<rparr>))"

section \<open>Variant Price Stepper\<close>

text \<open>
  The increment is the literal \<open>10\<close> in \<open>index.js\<close> and the constant
  \<open>priceIncrement = 9.99\<close> in the other source file; it is a parameter of the functions
  below, which are otherwise the same text in both files. Console output is not modelled.
\<close>

definition increment_index :: jsnum where
  "increment_index = Fin 10"

definition priceIncrement :: jsnum where
  "priceIncrement = round_double (999 / 100)"

text \<open>The constant \<open>newPrice\<close> of \<open>incrementVariantPrice\<close>.\<close>

definition newPrice :: "jsnum \<Rightarrow> jsnum \<Rightarrow> jsnum \<Rightarrow> jsnum" where
  "newPrice inc currentPrice compareAt =
     (let priceDifference = js_sub compareAt currentPrice
      in if js_lt priceDifference inc then compareAt
         else js_min (js_add currentPrice inc) compareAt)"

text \<open>
  \<open>incrementVariantPrice\<close>: the result is the value the function returns and the
  surroundings after it. An exception of the request, and the \<open>TypeError\<close> of reading
  \<open>userErrors\<close> in data of another shape, are caught by the \<open>try\<close> around the request.
\<close>

definition incrementVariantPrice ::
  "'w runtime \<Rightarrow> jsnum \<Rightarrow> variant \<Rightarrow> 'w io \<Rightarrow> bool \<times> 'w io" where
  "incrementVariantPrice rt inc v s =
     (let currentPrice = parseFloat (price v);
          compareAt = parseFloat (compareAtPrice v)
      in if js_lt currentPrice compareAt then
           (let new = newPrice inc currentPrice compareAt;
                (resp, s') = request rt (UPDATE_PRODUCT_VARIANT_MUTATION (variant_id v) (toFixed2 new)) s
            in case resp of
                 Errors \<Rightarrow> (False, s')
               | Data (ProductVariantUpdate userErrors) \<Rightarrow>
                   if userErrors \<noteq> [] then (False, s') else (js_eq new compareAt, s')
               | _ \<Rightarrow> (False, s'))
         else (True, s))"

section \<open>Price Adjustment Orchestrator\<close>

text \<open>The loop over the variants of \<open>adjustProductPrices\<close>, with its flag.\<close>

fun forVariants :: "'w runtime \<Rightarrow> jsnum \<Rightarrow> variant list \<Rightarrow> bool \<times> 'w io \<Rightarrow> bool \<times> 'w io" where
  "forVariants rt inc [] (allVariantsComplete, s) = (allVariantsComplete, s)"
| "forVariants rt inc (v # vs) (allVariantsComplete, s) =
     (let (isVariantComplete, s') = incrementVariantPrice rt inc v s
      in forVariants rt inc vs (if \<not> isVariantComplete then False else allVariantsComplete, s'))"

text \<open>
  \<open>adjustProductPrices\<close>; its second parameter, the deal identifier, is never read. A
  product that is \<open>null\<close> and data of another shape throw at \<open>data.product.variants\<close>,
  which the \<open>catch\<close> of the function turns into \<open>false\<close>.
\<close>

definition adjustProductPrices ::
  "'w runtime \<Rightarrow> jsnum \<Rightarrow> string option \<Rightarrow> 'w io \<Rightarrow> bool \<times> 'w io" where
  "adjustProductPrices rt inc productId s =
     (let (resp, s') = request rt (FETCH_PRODUCT_QUERY productId) s
      in case resp of
           Data (ProductData (Some p)) \<Rightarrow> forVariants rt inc (variants p) (True, s')
         | _ \<Rightarrow> (False, s'))"

section \<open>Deal Scanner and Deal State Tracker\<close>

text \<open>The object built by \<open>reduce\<close> from the fields of a deal: a later key overwrites.\<close>

definition fieldsObject :: "(string \<times> string) list \<Rightarrow> string \<rightharpoonup> string" where
  "fieldsObject fs = foldl (\<lambda>acc (k, v). acc(k \<mapsto> v)) Map.empty fs"

text \<open>
  \<open>new Date(fields.start_time) <= new Date()\<close>: a missing field and an unreadable date
  give an invalid date, which compares false.
\<close>

definition hasStarted :: "'w runtime \<Rightarrow> (string \<rightharpoonup> string) \<Rightarrow> 'w \<Rightarrow> bool" where
  "hasStarted rt fs w =
     (case fs ''start_time'' of
        None \<Rightarrow> False
      | Some t \<Rightarrow> (case Date_parse rt t of None \<Rightarrow> False | Some ms \<Rightarrow> ms \<le> clock rt w))"

subsection \<open>\<open>index.js\<close>: a set of tracked deals and a remote start marker\<close>

text \<open>\<open>updateDeal\<close> catches and logs every failure of its request and returns nothing.\<close>

definition updateDeal :: "'w runtime \<Rightarrow> string \<Rightarrow> 'w io \<Rightarrow> 'w io" where
  "updateDeal rt did s = snd (request rt (UPDATE_DEAL_MUTATION did) s)"

text \<open>The first statement of the loop body of \<open>fetchAndProcessDeals\<close>: the start of a deal.\<close>

definition startDeal :: "'w runtime \<Rightarrow> deal \<Rightarrow> string set \<times> 'w io \<Rightarrow> string set \<times> 'w io" where
  "startDeal rt d st =
     (let (trackedDeals, s) = st; fs = fieldsObject (deal_fields d)
      in if fs ''wtf_pricing'' = Some ''true'' \<and> hasStarted rt fs (world s)
            \<and> fs ''wtf_pricing_started'' \<noteq> Some ''true'' \<and> deal_id d \<notin> trackedDeals
         then (insert (deal_id d) trackedDeals, updateDeal rt (deal_id d) s)
         else (trackedDeals, s))"

text \<open>The second statement of the loop body: one adjustment pass for a tracked deal.\<close>

definition adjustDeal :: "'w runtime \<Rightarrow> deal \<Rightarrow> string set \<times> 'w io \<Rightarrow> string set \<times> 'w io" where
  "adjustDeal rt d st =
     (let (trackedDeals, s) = st
      in if deal_id d \<in> trackedDeals then
           (let (isDealComplete, s') =
                  adjustProductPrices rt increment_index (fieldsObject (deal_fields d) ''product'') s
            in (if isDealComplete then trackedDeals - {deal_id d} else trackedDeals, s'))
         else (trackedDeals, s))"

definition processDeal :: "'w runtime \<Rightarrow> string set \<times> 'w io \<Rightarrow> deal \<Rightarrow> string set \<times> 'w io" where
  "processDeal rt st d = adjustDeal rt d (startDeal rt d st)"

text \<open>
  \<open>fetchAndProcessDeals\<close> of \<open>index.js\<close>. A failed fetch of the deals, of any kind, ends
  the cycle with the tracked deals as they were.
\<close>

definition fetchAndProcessDeals :: "'w runtime \<Rightarrow> string set \<times> 'w io \<Rightarrow> string set \<times> 'w io" where
  "fetchAndProcessDeals rt st =
     (let (trackedDeals, s) = st; (resp, s') = request rt FETCH_DEALS_QUERY s
      in case resp of
           Data (Metaobjects deals) \<Rightarrow> foldl (processDeal rt) (trackedDeals, s') deals
         | _ \<Rightarrow> (trackedDeals, s'))"

text \<open>The sleep at the end of an iteration of \<open>main\<close>.\<close>

definition sleeping :: "'w runtime \<Rightarrow> 'w io \<Rightarrow> 'w io" where
  "sleeping rt s = s\<lparr>world := sleep rt (world s)\<rparr>"

text \<open>
  \<open>main\<close> never returns; \<open>main rt n\<close> is the state after \<open>n\<close> iterations of its loop.
\<close>

fun main :: "'w runtime \<Rightarrow> nat \<Rightarrow> string set \<times> 'w io \<Rightarrow> string set \<times> 'w io" where
  "main rt 0 st = st"
| "main rt (Suc n) st =
     (let (trackedDeals, s) = fetchAndProcessDeals rt st
      in main rt n (trackedDeals, sleeping rt s))"

subsection \<open>The other source file: an object from deal identifier to completion flag\<close>

text \<open>
  Here \<open>trackedDeals\<close> is a plain object, created as \<open>{}\<close>; the value under the identifier
  of a deal tells whether its recovery is complete. No key is ever deleted. The object
  is modelled by its own properties, a map from identifier to flag. A plain object also
  inherits the properties of \<open>Object.prototype\<close>, whose names are listed here, and the
  operator \<open>in\<close> and a property read both see them.
\<close>

definition Object_prototype :: "string list" where
  "Object_prototype =
     [''constructor'', ''__defineGetter__'', ''__defineSetter__'', ''hasOwnProperty'',
      ''__lookupGetter__'', ''__lookupSetter__'', ''isPrototypeOf'', ''propertyIsEnumerable'',
      ''toString'', ''valueOf'', ''__proto__'', ''toLocaleString'']"

text \<open>\<open>key in trackedDeals\<close>: an own property or an inherited one.\<close>

definition js_in :: "string \<Rightarrow> (string \<rightharpoonup> bool) \<Rightarrow> bool" where
  "js_in key trackedDeals = (key \<in> dom trackedDeals \<or> key \<in> set Object_prototype)"

text \<open>
  \<open>trackedDeals[key]\<close>: the flag of an own property, else the inherited property (a
  function, or the prototype object itself for \<open>__proto__\<close>), else \<open>undefined\<close>; and the
  truth value that \<open>!\<close> takes of it.
\<close>

datatype property = Undefined | Flag bool | Inherited

definition js_get :: "(string \<rightharpoonup> bool) \<Rightarrow> string \<Rightarrow> property" where
  "js_get trackedDeals key =
     (case trackedDeals key of
        Some flag \<Rightarrow> Flag flag
      | None \<Rightarrow> if key \<in> set Object_prototype then Inherited else Undefined)"

fun truthy :: "property \<Rightarrow> bool" where
  "truthy Undefined = False"
| "truthy (Flag flag) = flag"
| "truthy Inherited = True"

text \<open>
  The two statements of the loop body, with the suffix \<open>_flag\<close>. The assignments create
  or overwrite an own property: they are reached only for an identifier that is an own
  property already or that the object does not inherit.
\<close>

definition startDeal_flag ::
  "'w runtime \<Rightarrow> deal \<Rightarrow> (string \<rightharpoonup> bool) \<times> 'w io \<Rightarrow> (string \<rightharpoonup> bool) \<times> 'w io" where
  "startDeal_flag rt d st =
     (let (trackedDeals, s) = st; fs = fieldsObject (deal_fields d)
      in if fs ''wtf_pricing'' = Some ''true'' \<and> hasStarted rt fs (world s)
            \<and> \<not> js_in (deal_id d) trackedDeals
         then (trackedDeals(deal_id d \<mapsto> False), s)
         else (trackedDeals, s))"

definition adjustDeal_flag ::
  "'w runtime \<Rightarrow> deal \<Rightarrow> (string \<rightharpoonup> bool) \<times> 'w io \<Rightarrow> (string \<rightharpoonup> bool) \<times> 'w io" where
  "adjustDeal_flag rt d st =
     (let (trackedDeals, s) = st
      in if js_in (deal_id d) trackedDeals \<and> \<not> truthy (js_get trackedDeals (deal_id d)) then
           (let (isDealComplete, s') =
                  adjustProductPrices rt priceIncrement (fieldsObject (deal_fields d) ''product'') s
            in (if isDealComplete then trackedDeals(deal_id d \<mapsto> True) else trackedDeals, s'))
         else (trackedDeals, s))"

definition processDeal_flag ::
  "'w runtime \<Rightarrow> (string \<rightharpoonup> bool) \<times> 'w io \<Rightarrow> deal \<Rightarrow> (string \<rightharpoonup> bool) \<times> 'w io" where
  "processDeal_flag rt st d = adjustDeal_flag rt d (startDeal_flag rt d st)"

definition fetchAndProcessDeals_flag ::
  "'w runtime \<Rightarrow> (string \<rightharpoonup> bool) \<times> 'w io \<Rightarrow> (string \<rightharpoonup> bool) \<times> 'w io" where
  "fetchAndProcessDeals_flag rt st =
     (let (trackedDeals, s) = st; (resp, s') = request rt FETCH_DEALS_QUERY s
      in case resp of
           Data (Metaobjects deals) \<Rightarrow> foldl (processDeal_flag rt) (trackedDeals, s') deals
         | _ \<Rightarrow> (trackedDeals, s'))"

fun main_flag ::
  "'w runtime \<Rightarrow> nat \<Rightarrow> (string \<rightharpoonup> bool) \<times> 'w io \<Rightarrow> (string \<rightharpoonup> bool) \<times> 'w io" where
  "main_flag rt 0 st = st"
| "main_flag rt (Suc n) st =
     (let (trackedDeals, s) = fetchAndProcessDeals_flag rt st
      in main_flag rt n (trackedDeals, sleeping rt s))"

section \<open>Notions of the specification\<close>

text \<open>The requests issued between two states of the surroundings, in order.\<close>

definition issued :: "'w io \<Rightarrow> 'w io \<Rightarrow> request list" where
  "issued s s' = drop (length (sent s)) (sent s')"

text \<open>
  The contract of the Stepper in the words of the specification: \<open>None\<close> when the
  variant is already complete and no mutation is to be issued, and otherwise the price
  of the mutation: the compare-at price when the remaining difference is below the
  increment, and else the current price plus the increment, capped at the compare-at
  price.
\<close>

definition stepContract :: "jsnum \<Rightarrow> jsnum \<Rightarrow> jsnum \<Rightarrow> jsnum option" where
  "stepContract inc currentPrice compareAt =
     (if js_ge currentPrice compareAt then None
      else let remaining = js_sub compareAt currentPrice
           in if js_lt remaining inc then Some compareAt
              else let stepped = js_add currentPrice inc
                   in Some (if js_lt compareAt stepped then compareAt else stepped))"

text \<open>The price-update mutations one variant calls for in a pass: one or none.\<close>

definition mutationsFor :: "jsnum \<Rightarrow> variant \<Rightarrow> request list" where
  "mutationsFor inc v =
     (if js_lt (parseFloat (price v)) (parseFloat (compareAtPrice v)) then
        [UPDATE_PRODUCT_VARIANT_MUTATION (variant_id v)
           (toFixed2 (newPrice inc (parseFloat (price v)) (parseFloat (compareAtPrice v))))]
      else [])"

text \<open>The results of the Stepper on the variants of a pass, in order.\<close>

fun stepResults :: "'w runtime \<Rightarrow> jsnum \<Rightarrow> variant list \<Rightarrow> 'w io \<Rightarrow> bool list" where
  "stepResults rt inc [] s = []"
| "stepResults rt inc (v # vs) s =
     (let (isVariantComplete, s') = incrementVariantPrice rt inc v s
      in isVariantComplete # stepResults rt inc vs s')"

text \<open>How often the start-marker mutation of a deal has been issued so far.\<close>

definition startMarkers :: "string \<Rightarrow> 'w io \<Rightarrow> nat" where
  "startMarkers x s = count_list (sent s) (UPDATE_DEAL_MUTATION x)"

text \<open>
  A failed price-update mutation: the request threw, or came back with \<open>errors\<close>, or
  with user errors, or with data that are not those of the mutation.
\<close>

definition mutationFailed :: "response \<Rightarrow> bool" where
  "mutationFailed resp =
     (case resp of Data (ProductVariantUpdate userErrors) \<Rightarrow> userErrors \<noteq> [] | _ \<Rightarrow> True)"

section \<open>A store to run the engine against\<close>

text \<open>
  A Gateway with the expected behaviour, for running the engine on concrete catalogs: it
  keeps the deals and the products, answers the two queries from them and applies the
  two mutations to them. It refuses (with a user error) the price update of the variants
  listed in \<open>refusedVariants\<close>, a price that is not in fixed notation, and, when
  \<open>refuseMarker\<close> is set, the start-marker mutation. Its clock advances only during the
  sleep of the engine, and it reads the dates of \<open>knownDates\<close>.
\<close>

record store =
  storeDeals :: "deal list"
  storeProducts :: "(string \<times> product) list"
  storeTime :: int
  refusedVariants :: "string list"
  refuseMarker :: bool

definition setPrice :: "string \<Rightarrow> string \<Rightarrow> product \<Rightarrow> product" where
  "setPrice vid txt p =
     p\<lparr>variants := map (\<lambda>v. if variant_id v = vid then v\<lparr>price := txt\<rparr> else v) (variants p)\<rparr>"

definition markStarted :: "string \<Rightarrow> deal \<Rightarrow> deal" where
  "markStarted did d =
     (if deal_id d = did then d\<lparr>deal_fields := deal_fields d @ [(''wtf_pricing_started'', ''true'')]\<rparr>
      else d)"

fun storeRequest :: "request \<Rightarrow> store \<Rightarrow> response \<times> store" where
  "storeRequest FETCH_DEALS_QUERY w = (Data (Metaobjects (storeDeals w)), w)"
| "storeRequest (FETCH_PRODUCT_QUERY None) w = (Data (ProductData None), w)"
| "storeRequest (FETCH_PRODUCT_QUERY (Some pid)) w =
     (Data (ProductData (map_of (storeProducts w) pid)), w)"
| "storeRequest (UPDATE_PRODUCT_VARIANT_MUTATION vid (Unfixed x)) w =
     (Data (ProductVariantUpdate [''Price is invalid'']), w)"
| "storeRequest (UPDATE_PRODUCT_VARIANT_MUTATION vid (Fixed txt)) w =
     (if vid \<in> set (refusedVariants w) then (Data (ProductVariantUpdate [''Price is refused'']), w)
      else (Data (ProductVariantUpdate []),
            w\<lparr>storeProducts := map (\<lambda>(pid, p). (pid, setPrice vid txt p)) (storeProducts w)\<rparr>))"
| "storeRequest (UPDATE_DEAL_MUTATION did) w =
     (if refuseMarker w then (Data (MetaobjectUpdate [''Update is refused'']), w)
      else (Data (MetaobjectUpdate []), w\<lparr>storeDeals := map (markStarted did) (storeDeals w)\<rparr>))"

definition knownDates :: "(string \<times> int) list" where
  "knownDates = [(''2024-11-01T00:00:00Z'', 1730419200000), (''2030-01-01T00:00:00Z'', 1893456000000)]"

definition storeRuntime :: "store runtime" where
  "storeRuntime =
     \<lparr>client_request = storeRequest, clock = storeTime, Date_parse = map_of knownDates,
      sleep = (\<lambda>w. w\<lparr>storeTime := storeTime w + 30000\<rparr>)\<rparr>"

text \<open>
  Concrete stores: one without anything, and one with a single eligible deal
  \<open>deal-1\<close> whose product \<open>product-1\<close> has the given variants.
\<close>

definition emptyStore :: store where
  "emptyStore =
     \<lparr>storeDeals = [], storeProducts = [], storeTime = 1730500000000,
      refusedVariants = [], refuseMarker = False\<rparr>"

definition dealOne :: deal where
  "dealOne =
     \<lparr>deal_id = ''deal-1'',
      deal_fields = [(''wtf_pricing'', ''true''), (''start_time'', ''2024-11-01T00:00:00Z''),
                     (''product'', ''product-1'')]\<rparr>"

definition catalogStore :: "variant list \<Rightarrow> store" where
  "catalogStore vs =
     \<lparr>storeDeals = [dealOne], storeProducts = [(''product-1'', \<lparr>title = ''Mug'', variants = vs\<rparr>)],
      storeTime = 1730500000000, refusedVariants = [], refuseMarker = False\<rparr>"

text \<open>The engine before its first request, in a given world.\<close>

definition fresh :: "'w \<Rightarrow> 'w io" where
  "fresh w = \<lparr>world = w, sent = []\<rparr>"

text \<open>A Gateway that answers every request with an \<open>errors\<close> payload.\<close>

definition erringRuntime :: "store runtime" where
  "erringRuntime = storeRuntime\<lparr>client_request := (\<lambda>req w. (Errors, w))\<rparr>"

section \<open>The binary exponent\<close>

lemma powi_le_iff: "(2::rat) powi a \<le> 2 powi b \<longleftrightarrow> a \<le> b"
  using power_int_increasing[of a b "2::rat"] power_int_strict_increasing[of b a "2::rat"]
  by (cases "a \<le> b") auto

lemma powi_less_iff: "(2::rat) powi a < 2 powi b \<longleftrightarrow> a < b"
  using power_int_increasing[of b a "2::rat"] power_int_strict_increasing[of a b "2::rat"]
  by (cases "a < b") auto

lemma ilog2_ge1:
  assumes "1 \<le> a"
  shows "2 powi ilog2 a \<le> a \<and> a < 2 powi (ilog2 a + 1)"
proof -
  let ?n = "\<lfloor>a\<rfloor>"
  have n: "0 < ?n" using assms by simp
  have b1: "1 \<le> bitlen ?n" using n bitlen_eq_zero_iff[of ?n] bitlen_nonneg[of ?n] by linarith
  from bitlen_bounds[OF n] have lo: "2 ^ nat (bitlen ?n - 1) \<le> ?n" and hi: "?n < 2 ^ nat (bitlen ?n)"
    by auto
  have "(of_int (2 ^ nat (bitlen ?n - 1)) :: rat) \<le> of_int ?n" using lo by (simp only: of_int_le_iff)
  also have "\<dots> \<le> a" by simp
  finally have L: "(2::rat) ^ nat (bitlen ?n - 1) \<le> a" by simp
  have "?n + 1 \<le> 2 ^ nat (bitlen ?n)" using hi by simp
  then have "(of_int (?n + 1) :: rat) \<le> of_int (2 ^ nat (bitlen ?n))" by (simp only: of_int_le_iff)
  moreover have "a < of_int (?n + 1)" by linarith
  ultimately have H: "a < (2::rat) ^ nat (bitlen ?n)" by simp
  have e: "ilog2 a = bitlen ?n - 1" using assms by (simp add: ilog2_def)
  show ?thesis using L H b1 by (simp add: e power_int_nonneg_exp)
qed

lemma ilog2_lt1:
  assumes "0 < a" "a < 1"
  shows "2 powi ilog2 a \<le> a \<and> a < 2 powi (ilog2 a + 1)"
proof -
  let ?b = "1 / a"
  let ?m = "\<lceil>?b\<rceil> - 1"
  have b: "1 < ?b" using assms by simp
  have m: "0 < ?m" using b by linarith
  have b1: "1 \<le> bitlen ?m" using m bitlen_eq_zero_iff[of ?m] bitlen_nonneg[of ?m] by linarith
  from bitlen_bounds[OF m] have lo: "2 ^ nat (bitlen ?m - 1) \<le> ?m" and hi: "?m < 2 ^ nat (bitlen ?m)"
    by auto
  have "\<lceil>?b\<rceil> \<le> 2 ^ nat (bitlen ?m)" using hi by simp
  then have "?b \<le> of_int (2 ^ nat (bitlen ?m))" by (simp only: ceiling_le_iff)
  then have B: "?b \<le> 2 ^ nat (bitlen ?m)" by simp
  have "2 ^ nat (bitlen ?m - 1) < \<lceil>?b\<rceil>" using lo by simp
  then have "of_int (2 ^ nat (bitlen ?m - 1)) < ?b" by (simp only: less_ceiling_iff)
  then have A: "2 ^ nat (bitlen ?m - 1) < ?b" by simp
  have e: "ilog2 a = - bitlen ?m" using assms by (simp add: ilog2_def)
  have p1: "(2::rat) powi (- bitlen ?m) = 1 / 2 ^ nat (bitlen ?m)"
    using b1 by (simp add: power_int_def field_simps)
  have p2: "(2::rat) powi (- bitlen ?m + 1) = 1 / 2 ^ nat (bitlen ?m - 1)"
    using b1 by (simp add: power_int_def field_simps nat_diff_distrib)
  have L: "1 / 2 ^ nat (bitlen ?m) \<le> a"
    using B assms(1) by (simp add: field_simps)
  have H: "a < 1 / 2 ^ nat (bitlen ?m - 1)"
    using A assms(1) by (simp add: field_simps)
  show ?thesis using L H by (simp only: e p1 p2)
qed

lemma ilog2_bounds:
  "0 < a \<Longrightarrow> 2 powi ilog2 a \<le> a \<and> a < 2 powi (ilog2 a + 1)"
  using ilog2_ge1[of a] ilog2_lt1[of a] by (cases "1 \<le> a") auto

lemma ilog2_unique:
  assumes "2 powi e \<le> a" "a < 2 powi (e + 1)"
  shows "ilog2 a = e"
proof -
  have "(0::rat) < 2 powi e" by simp
  then have a: "0 < a" using assms(1) by linarith
  from ilog2_bounds[OF a] have 1: "2 powi ilog2 a \<le> a" and 2: "a < 2 powi (ilog2 a + 1)" by auto
  have "(2::rat) powi e < 2 powi (ilog2 a + 1)" using assms(1) 2 by linarith
  then have "e < ilog2 a + 1" by (simp only: powi_less_iff)
  moreover have "(2::rat) powi ilog2 a < 2 powi (e + 1)" using assms(2) 1 by linarith
  then have "ilog2 a < e + 1" by (simp only: powi_less_iff)
  ultimately show ?thesis by simp
qed

section \<open>Evaluation by rewriting\<close>

text \<open>
  The definitions of the numbers and of the texts are evaluated on concrete inputs by
  the simplifier, with the facts collected here.
\<close>

lemma bitlen_numeral: "bitlen (numeral k) = bitlen (numeral k div 2) + 1"
  by (subst compute_bitlen) simp

lemma bitlen_one: "bitlen 1 = 1"
  by (subst compute_bitlen) simp

lemma floor_rat_numeral: "\<lfloor>numeral a / numeral b :: rat\<rfloor> = numeral a div numeral b"
  using floor_divide_of_int_eq[of "numeral a" "numeral b", where ?'a = rat] by simp

lemma ceiling_rat_numeral: "\<lceil>numeral a / numeral b :: rat\<rceil> = - (- numeral a div numeral b)"
  using floor_divide_of_int_eq[of "- numeral a" "numeral b", where ?'a = rat]
  by (simp add: ceiling_def)

lemma decimalDigits_small: "n < 10 \<Longrightarrow> decimalDigits n = [digitChar n]"
  by simp

lemma decimalDigits_large:
  "10 \<le> n \<Longrightarrow> decimalDigits n = decimalDigits (n div 10) @ [digitChar (n mod 10)]"
  by (subst decimalDigits.simps) simp

declare decimalDigits.simps [simp del]

lemmas eval_number = ilog2_def ulp_def round_pos_def round_double_def roundTiesToEven_def Let_def
  bitlen_numeral bitlen_one floor_rat_numeral ceiling_rat_numeral js_sub_def newPrice_def
  priceIncrement_def increment_index_def

lemmas eval_text = parseFloat_def unsignedLiteral_def exponentPart_def digitsValue_def isDigit_def
  isWhiteSpace_def fixed2_def digitChar_def decimalDigits_small decimalDigits_large

lemmas eval_store = request_def storeRuntime_def erringRuntime_def emptyStore_def dealOne_def
  catalogStore_def fresh_def knownDates_def setPrice_def markStarted_def

lemmas eval_engine = incrementVariantPrice_def adjustProductPrices_def mutationsFor_def
  stepContract_def mutationFailed_def issued_def startMarkers_def fieldsObject_def hasStarted_def
  updateDeal_def startDeal_def adjustDeal_def processDeal_def fetchAndProcessDeals_def
  sleeping_def startDeal_flag_def adjustDeal_flag_def processDeal_flag_def
  fetchAndProcessDeals_flag_def js_in_def js_get_def Object_prototype_def

lemmas eval = eval_number eval_text eval_store eval_engine

section \<open>Properties of the Stepper\<close>

lemma sent_request: "sent (snd (request rt r s)) = sent s @ [r]"
  by (simp add: request_def split: prod.splits)

lemma issued_append: "sent s' = sent s @ rs \<Longrightarrow> issued s s' = rs"
  by (simp add: issued_def)

lemma js_lt_not_ge: "js_lt a b \<Longrightarrow> \<not> js_ge a b"
  by (cases a; cases b) simp_all

lemma js_ge_not_lt: "js_ge a b \<Longrightarrow> \<not> js_lt a b"
  by (cases a; cases b) simp_all

lemma js_min_capped: "js_lt a b \<Longrightarrow> js_min x b = (if js_lt b x then b else x)"
  by (cases a; cases b; cases x) simp_all

lemma stepContract_newPrice:
  "js_lt cur cmp \<Longrightarrow> stepContract inc cur cmp = Some (newPrice inc cur cmp)"
  by (simp add: stepContract_def newPrice_def Let_def js_lt_not_ge js_min_capped)

lemma stepContract_None: "stepContract inc cur cmp = None \<Longrightarrow> \<not> js_lt cur cmp"
  by (auto simp: stepContract_def Let_def js_ge_not_lt split: if_splits)

lemma increment_not_lt:
  "\<not> js_lt (parseFloat (price v)) (parseFloat (compareAtPrice v)) \<Longrightarrow>
   incrementVariantPrice rt inc v s = (True, s)"
  by (simp add: incrementVariantPrice_def)

lemma sent_increment:
  "sent (snd (incrementVariantPrice rt inc v s)) = sent s @ mutationsFor inc v"
  by (auto simp: incrementVariantPrice_def mutationsFor_def Let_def sent_request
      split: prod.splits response.splits data.splits)
     (metis sent_request snd_conv)+


lemma not_NaN_lt_or_ge: "a \<noteq> NaN \<Longrightarrow> b \<noteq> NaN \<Longrightarrow> js_lt a b \<or> js_ge a b"
  by (cases a; cases b) auto

lemma NaN_not_lt: "a = NaN \<or> b = NaN \<Longrightarrow> \<not> js_lt a b"
  by (cases a; cases b) auto

text \<open>
  Claim C1, as amended. Take the contract of the specification (\<open>stepContract\<close>, written
  from its words) on the parsed price and the parsed compare-at price of a variant. When
  the contract asks for no mutation (the current price is at or above the compare-at
  price), the Stepper issues no request and returns \<open>true\<close>. When the contract gives a
  price and both parsed prices are numbers, the Stepper issues exactly one request: the
  price-update mutation of the variant with that price, formatted to two decimals. When
  the contract gives a price and one of the parsed prices is not a number, the Stepper
  issues no request and returns \<open>true\<close>.
\<close>

theorem stepper_contract:
  "(stepContract inc (parseFloat (price v)) (parseFloat (compareAtPrice v)) = None \<longrightarrow>
      incrementVariantPrice rt inc v s = (True, s))
   \<and> (\<forall>p. stepContract inc (parseFloat (price v)) (parseFloat (compareAtPrice v)) = Some p \<longrightarrow>
        (parseFloat (price v) \<noteq> NaN \<and> parseFloat (compareAtPrice v) \<noteq> NaN \<longrightarrow>
           issued s (snd (incrementVariantPrice rt inc v s))
             = [UPDATE_PRODUCT_VARIANT_MUTATION (variant_id v) (toFixed2 p)])
        \<and> (parseFloat (price v) = NaN \<or> parseFloat (compareAtPrice v) = NaN \<longrightarrow>
             incrementVariantPrice rt inc v s = (True, s)))"
proof (intro conjI allI impI)
  assume "stepContract inc (parseFloat (price v)) (parseFloat (compareAtPrice v)) = None"
  then show "incrementVariantPrice rt inc v s = (True, s)"
    by (simp add: stepContract_None increment_not_lt)
next
  fix p
  assume c: "stepContract inc (parseFloat (price v)) (parseFloat (compareAtPrice v)) = Some p"
  assume n: "parseFloat (price v) \<noteq> NaN \<and> parseFloat (compareAtPrice v) \<noteq> NaN"
  have "\<not> js_ge (parseFloat (price v)) (parseFloat (compareAtPrice v))"
    using c by (auto simp: stepContract_def)
  then have lt: "js_lt (parseFloat (price v)) (parseFloat (compareAtPrice v))"
    using n not_NaN_lt_or_ge[of "parseFloat (price v)" "parseFloat (compareAtPrice v)"] by blast
  have i: "issued s (snd (incrementVariantPrice rt inc v s)) = mutationsFor inc v"
    by (rule issued_append) (rule sent_increment)
  show "issued s (snd (incrementVariantPrice rt inc v s))
          = [UPDATE_PRODUCT_VARIANT_MUTATION (variant_id v) (toFixed2 p)]"
    using c lt stepContract_newPrice[OF lt, of inc] by (simp add: i mutationsFor_def)
next
  fix p
  assume "parseFloat (price v) = NaN \<or> parseFloat (compareAtPrice v) = NaN"
  then have "\<not> js_lt (parseFloat (price v)) (parseFloat (compareAtPrice v))"
    by (rule NaN_not_lt)
  then show "incrementVariantPrice rt inc v s = (True, s)" by (rule increment_not_lt)
qed

lemma parse_80: "parseFloat ''80.00'' = Fin 80" by (simp add: eval)
lemma parse_100: "parseFloat ''100.00'' = Fin 100" by (simp add: eval)
lemma parse_null: "parseFloat ''null'' = NaN" by (simp add: eval)

theorem stepper_contract_witness:
  "stepContract increment_index (parseFloat ''100.00'') (parseFloat ''100.00'') = None
   \<and> incrementVariantPrice storeRuntime increment_index
        \<lparr>variant_id = ''v1'', price = ''100.00'', compareAtPrice = ''100.00''\<rparr>
        (fresh emptyStore) = (True, fresh emptyStore)
   \<and> stepContract increment_index (parseFloat ''80.00'') (parseFloat ''100.00'') = Some (Fin 90)
   \<and> parseFloat ''80.00'' \<noteq> NaN \<and> parseFloat ''100.00'' \<noteq> NaN
   \<and> issued (fresh emptyStore)
        (snd (incrementVariantPrice storeRuntime increment_index
           \<lparr>variant_id = ''v2'', price = ''80.00'', compareAtPrice = ''100.00''\<rparr>
           (fresh emptyStore)))
      = [UPDATE_PRODUCT_VARIANT_MUTATION ''v2'' (Fixed ''90.00'')]
   \<and> stepContract increment_index (parseFloat ''80.00'') (parseFloat ''null'') = Some (Fin 90)
   \<and> parseFloat ''null'' = NaN
   \<and> incrementVariantPrice storeRuntime increment_index
        \<lparr>variant_id = ''v3'', price = ''80.00'', compareAtPrice = ''null''\<rparr>
        (fresh emptyStore) = (True, fresh emptyStore)"
proof -
  let ?v1 = "\<lparr>variant_id = ''v1'', price = ''100.00'', compareAtPrice = ''100.00''\<rparr>"
  let ?v2 = "\<lparr>variant_id = ''v2'', price = ''80.00'', compareAtPrice = ''100.00''\<rparr>"
  let ?v3 = "\<lparr>variant_id = ''v3'', price = ''80.00'', compareAtPrice = ''null''\<rparr>"
  have h1: "stepContract increment_index (parseFloat (price ?v1)) (parseFloat (compareAtPrice ?v1)) = None"
    by (simp add: parse_100 stepContract_def)
  have h2: "stepContract increment_index (parseFloat (price ?v2)) (parseFloat (compareAtPrice ?v2))
              = Some (Fin 90)"
    by (simp add: eval)
  have n2: "parseFloat (price ?v2) \<noteq> NaN \<and> parseFloat (compareAtPrice ?v2) \<noteq> NaN"
    by (simp add: parse_80 parse_100)
  have h3: "stepContract increment_index (parseFloat (price ?v3)) (parseFloat (compareAtPrice ?v3))
              = Some (Fin 90)"
    by (simp add: eval)
  have n3: "parseFloat (price ?v3) = NaN \<or> parseFloat (compareAtPrice ?v3) = NaN"
    by (simp add: parse_null)
  have t: "toFixed2 (Fin 90) = Fixed ''90.00''" by (simp add: eval)
  note A = stepper_contract[of increment_index ?v1 storeRuntime "fresh emptyStore"]
  note B = stepper_contract[of increment_index ?v2 storeRuntime "fresh emptyStore"]
  note C = stepper_contract[of increment_index ?v3 storeRuntime "fresh emptyStore"]
  have c1: "incrementVariantPrice storeRuntime increment_index ?v1 (fresh emptyStore)
              = (True, fresh emptyStore)"
    using A[THEN conjunct1, THEN mp, OF h1] .
  have c2: "issued (fresh emptyStore)
              (snd (incrementVariantPrice storeRuntime increment_index ?v2 (fresh emptyStore)))
            = [UPDATE_PRODUCT_VARIANT_MUTATION ''v2'' (Fixed ''90.00'')]"
    using B[THEN conjunct2, THEN spec, THEN mp, OF h2, THEN conjunct1, THEN mp, OF n2]
    unfolding t by simp
  have c3: "incrementVariantPrice storeRuntime increment_index ?v3 (fresh emptyStore)
              = (True, fresh emptyStore)"
    using C[THEN conjunct2, THEN spec, THEN mp, OF h3, THEN conjunct2, THEN mp, OF n3] .
  show ?thesis using h1 c1 h2 n2 c2 h3 c3 by (simp add: parse_null)
qed

text \<open>
  Claim C1 as stated fails on both source files. The compare-at price of the variant is
  \<open>null\<close>, which \<open>parseFloat\<close> reads as not a number. The current price \<open>80\<close> is not at or
  above it, so the contract takes its second case and gives the price \<open>80 + 10 = 90\<close> for
  the mutation; the Stepper issues no request and returns \<open>true\<close>.
\<close>

theorem stepper_contract_counterexample:
  "stepContract increment_index (parseFloat ''80.00'') (parseFloat ''null'') = Some (Fin 90)
   \<and> incrementVariantPrice storeRuntime increment_index
        \<lparr>variant_id = ''v1'', price = ''80.00'', compareAtPrice = ''null''\<rparr>
        (fresh emptyStore) = (True, fresh emptyStore)
   \<and> issued (fresh emptyStore)
        (snd (incrementVariantPrice storeRuntime increment_index
           \<lparr>variant_id = ''v1'', price = ''80.00'', compareAtPrice = ''null''\<rparr>
           (fresh emptyStore)))
      = []
   \<and> stepContract priceIncrement (parseFloat ''80.00'') (parseFloat ''null'')
       = Some (js_add (Fin 80) priceIncrement)
   \<and> incrementVariantPrice storeRuntime priceIncrement
        \<lparr>variant_id = ''v1'', price = ''80.00'', compareAtPrice = ''null''\<rparr>
        (fresh emptyStore) = (True, fresh emptyStore)"
proof -
  have a: "stepContract increment_index (parseFloat ''80.00'') (parseFloat ''null'') = Some (Fin 90)"
    by (simp add: eval)
  have b: "incrementVariantPrice storeRuntime inc
        \<lparr>variant_id = ''v1'', price = ''80.00'', compareAtPrice = ''null''\<rparr>
        (fresh emptyStore) = (True, fresh emptyStore)" for inc
    by (simp add: incrementVariantPrice_def parse_80 parse_null)
  have c: "stepContract priceIncrement (parseFloat ''80.00'') (parseFloat ''null'')
       = Some (js_add (Fin 80) priceIncrement)"
    by (simp add: eval)
  show ?thesis using a b c by (simp add: issued_def)
qed

section \<open>Properties of the Orchestrator\<close>

lemma forVariants_append:
  "forVariants rt inc (xs @ ys) st = forVariants rt inc ys (forVariants rt inc xs st)"
proof (induction xs arbitrary: st)
  case Nil
  show ?case by (cases st) simp
next
  case (Cons x xs)
  show ?case by (cases st) (simp add: Cons.IH split: prod.splits)
qed

lemma fst_forVariants:
  "fst (forVariants rt inc vs (b, s)) = (b \<and> list_all (\<lambda>c. c) (stepResults rt inc vs s))"
  by (induction vs arbitrary: b s) (auto split: prod.splits)

lemma sent_forVariants:
  "sent (snd (forVariants rt inc vs (b, s))) = sent s @ concat (map (mutationsFor inc) vs)"
proof (induction vs arbitrary: b s)
  case Nil
  show ?case by simp
next
  case (Cons v vs)
  obtain c s' where i: "incrementVariantPrice rt inc v s = (c, s')"
    by (cases "incrementVariantPrice rt inc v s")
  have "sent s' = sent s @ mutationsFor inc v"
    using sent_increment[of rt inc v s] by (simp add: i)
  then show ?case by (simp add: i Cons.IH)
qed

lemma forVariants_False:
  "fst (forVariants rt inc vs (False, s)) = False"
  by (simp add: fst_forVariants)

lemma increment_failed:
  assumes "js_lt (parseFloat (price v)) (parseFloat (compareAtPrice v))"
    and "mutationFailed (fst (request rt (UPDATE_PRODUCT_VARIANT_MUTATION (variant_id v)
           (toFixed2 (newPrice inc (parseFloat (price v)) (parseFloat (compareAtPrice v))))) s))"
  shows "incrementVariantPrice rt inc v s =
           (False, snd (request rt (UPDATE_PRODUCT_VARIANT_MUTATION (variant_id v)
              (toFixed2 (newPrice inc (parseFloat (price v)) (parseFloat (compareAtPrice v))))) s))"
  using assms
  by (auto simp: incrementVariantPrice_def mutationFailed_def Let_def
      split: prod.splits response.splits data.splits)

lemma adjust_fetched:
  assumes "fst (request rt (FETCH_PRODUCT_QUERY pid) s) = Data (ProductData (Some p))"
  shows "adjustProductPrices rt inc pid s =
     forVariants rt inc (variants p) (True, snd (request rt (FETCH_PRODUCT_QUERY pid) s))"
proof -
  obtain r s' where q: "request rt (FETCH_PRODUCT_QUERY pid) s = (r, s')"
    by (cases "request rt (FETCH_PRODUCT_QUERY pid) s")
  with assms have "r = Data (ProductData (Some p))" by simp
  then show ?thesis by (simp add: adjustProductPrices_def q)
qed

lemma adjust_not_fetched:
  assumes "\<forall>p. fst (request rt (FETCH_PRODUCT_QUERY pid) s) \<noteq> Data (ProductData (Some p))"
  shows "adjustProductPrices rt inc pid s = (False, snd (request rt (FETCH_PRODUCT_QUERY pid) s))"
proof -
  obtain r s' where q: "request rt (FETCH_PRODUCT_QUERY pid) s = (r, s')"
    by (cases "request rt (FETCH_PRODUCT_QUERY pid) s")
  with assms have "\<forall>p. r \<noteq> Data (ProductData (Some p))" by simp
  then show ?thesis
    by (simp add: adjustProductPrices_def q split: response.splits data.splits option.splits)
qed

text \<open>
  Claim C10. A variant whose price or compare-at price does not parse as a number
  (\<open>parseFloat\<close> gives \<open>NaN\<close>) makes the Stepper issue no mutation and return \<open>true\<close>, so
  the loop of the Orchestrator goes on with its completion flag as it was: the variant
  counts as complete.
\<close>

theorem nan_counts_complete:
  "parseFloat (price v) = NaN \<or> parseFloat (compareAtPrice v) = NaN \<Longrightarrow>
   incrementVariantPrice rt inc v s = (True, s)
   \<and> forVariants rt inc (v # vs) (allVariantsComplete, s) = forVariants rt inc vs (allVariantsComplete, s)"
proof -
  assume "parseFloat (price v) = NaN \<or> parseFloat (compareAtPrice v) = NaN"
  then have "\<not> js_lt (parseFloat (price v)) (parseFloat (compareAtPrice v))"
    by (cases "parseFloat (price v)"; cases "parseFloat (compareAtPrice v)") auto
  then have "incrementVariantPrice rt inc v s = (True, s)"
    by (rule increment_not_lt)
  then show ?thesis by simp
qed

theorem nan_counts_complete_witness:
  "parseFloat ''null'' = NaN
   \<and> incrementVariantPrice storeRuntime priceIncrement
        \<lparr>variant_id = ''v1'', price = ''80.00'', compareAtPrice = ''null''\<rparr>
        (fresh emptyStore) = (True, (fresh emptyStore))
   \<and> forVariants storeRuntime priceIncrement
        [\<lparr>variant_id = ''v1'', price = ''80.00'', compareAtPrice = ''null''\<rparr>]
        (True, (fresh emptyStore)) = (True, (fresh emptyStore))"
  using parse_null
    nan_counts_complete[of "\<lparr>variant_id = ''v1'', price = ''80.00'', compareAtPrice = ''null''\<rparr>"
      storeRuntime priceIncrement "fresh emptyStore" "[]" True]
  by simp

lemma increment_result:
  "fst (incrementVariantPrice rt inc v s)
     = (\<not> js_lt (parseFloat (price v)) (parseFloat (compareAtPrice v))
        \<or> (\<not> mutationFailed (fst (request rt (UPDATE_PRODUCT_VARIANT_MUTATION (variant_id v)
                (toFixed2 (newPrice inc (parseFloat (price v)) (parseFloat (compareAtPrice v))))) s))
           \<and> js_eq (newPrice inc (parseFloat (price v)) (parseFloat (compareAtPrice v)))
                (parseFloat (compareAtPrice v))))"
  by (auto simp: incrementVariantPrice_def mutationFailed_def Let_def
      split: prod.splits response.splits data.splits)

text \<open>
  Claim C5, as amended. When the product is fetched, \<open>adjustProductPrices\<close> returns the
  conjunction of the results of the Stepper on the variants of the product, in the states
  in which the pass reaches them: \<open>true\<close> if and only if the Stepper returned \<open>true\<close> for
  every variant. When the fetch throws or comes back with an \<open>errors\<close> payload, it returns
  \<open>false\<close>. The result of the Stepper on a variant, in any state, is \<open>true\<close> exactly when
  the parsed price is not below the parsed compare-at price (it is at the target, above
  it, or one of the two is not a number), or the mutation of the variant succeeds and the
  new price is strictly equal, as a double, to the parsed compare-at price.
\<close>

theorem orchestrator_conjunction:
  "(\<forall>p. fst (request rt (FETCH_PRODUCT_QUERY pid) s) = Data (ProductData (Some p)) \<longrightarrow>
      fst (adjustProductPrices rt inc pid s)
        = list_all (\<lambda>c. c) (stepResults rt inc (variants p) (snd (request rt (FETCH_PRODUCT_QUERY pid) s))))
   \<and> (fst (request rt (FETCH_PRODUCT_QUERY pid) s) = Thrown
        \<or> fst (request rt (FETCH_PRODUCT_QUERY pid) s) = Errors \<longrightarrow>
      \<not> fst (adjustProductPrices rt inc pid s))
   \<and> fst (incrementVariantPrice rt inc v t)
       = (\<not> js_lt (parseFloat (price v)) (parseFloat (compareAtPrice v))
          \<or> (\<not> mutationFailed (fst (request rt (UPDATE_PRODUCT_VARIANT_MUTATION (variant_id v)
                  (toFixed2 (newPrice inc (parseFloat (price v)) (parseFloat (compareAtPrice v))))) t))
             \<and> js_eq (newPrice inc (parseFloat (price v)) (parseFloat (compareAtPrice v)))
                  (parseFloat (compareAtPrice v))))"
proof (intro conjI allI impI)
  fix p
  assume "fst (request rt (FETCH_PRODUCT_QUERY pid) s) = Data (ProductData (Some p))"
  then show "fst (adjustProductPrices rt inc pid s)
        = list_all (\<lambda>c. c) (stepResults rt inc (variants p) (snd (request rt (FETCH_PRODUCT_QUERY pid) s)))"
    by (simp add: adjust_fetched fst_forVariants)
next
  assume "fst (request rt (FETCH_PRODUCT_QUERY pid) s) = Thrown
        \<or> fst (request rt (FETCH_PRODUCT_QUERY pid) s) = Errors"
  then have "adjustProductPrices rt inc pid s = (False, snd (request rt (FETCH_PRODUCT_QUERY pid) s))"
    by (intro adjust_not_fetched) auto
  then show "\<not> fst (adjustProductPrices rt inc pid s)" by simp
next
  show "fst (incrementVariantPrice rt inc v t)
       = (\<not> js_lt (parseFloat (price v)) (parseFloat (compareAtPrice v))
          \<or> (\<not> mutationFailed (fst (request rt (UPDATE_PRODUCT_VARIANT_MUTATION (variant_id v)
                  (toFixed2 (newPrice inc (parseFloat (price v)) (parseFloat (compareAtPrice v))))) t))
             \<and> js_eq (newPrice inc (parseFloat (price v)) (parseFloat (compareAtPrice v)))
                  (parseFloat (compareAtPrice v))))"
    by (rule increment_result)
qed

lemma fetch_two:
  "fst (request storeRuntime (FETCH_PRODUCT_QUERY (Some ''product-1''))
          (fresh (catalogStore
             [\<lparr>variant_id = ''v1'', price = ''100.00'', compareAtPrice = ''100.00''\<rparr>,
              \<lparr>variant_id = ''v2'', price = ''80.00'', compareAtPrice = ''100.00''\<rparr>])))
   = Data (ProductData (Some \<lparr>title = ''Mug'', variants =
             [\<lparr>variant_id = ''v1'', price = ''100.00'', compareAtPrice = ''100.00''\<rparr>,
              \<lparr>variant_id = ''v2'', price = ''80.00'', compareAtPrice = ''100.00''\<rparr>]\<rparr>))"
  by (simp add: eval)

theorem orchestrator_conjunction_witness:
  "fst (request storeRuntime (FETCH_PRODUCT_QUERY (Some ''product-1''))
          (fresh (catalogStore
             [\<lparr>variant_id = ''v1'', price = ''100.00'', compareAtPrice = ''100.00''\<rparr>,
              \<lparr>variant_id = ''v2'', price = ''80.00'', compareAtPrice = ''100.00''\<rparr>])))
     = Data (ProductData (Some \<lparr>title = ''Mug'', variants =
             [\<lparr>variant_id = ''v1'', price = ''100.00'', compareAtPrice = ''100.00''\<rparr>,
              \<lparr>variant_id = ''v2'', price = ''80.00'', compareAtPrice = ''100.00''\<rparr>]\<rparr>))
   \<and> stepResults storeRuntime increment_index
         [\<lparr>variant_id = ''v1'', price = ''100.00'', compareAtPrice = ''100.00''\<rparr>,
          \<lparr>variant_id = ''v2'', price = ''80.00'', compareAtPrice = ''100.00''\<rparr>]
         (snd (request storeRuntime (FETCH_PRODUCT_QUERY (Some ''product-1''))
            (fresh (catalogStore
               [\<lparr>variant_id = ''v1'', price = ''100.00'', compareAtPrice = ''100.00''\<rparr>,
                \<lparr>variant_id = ''v2'', price = ''80.00'', compareAtPrice = ''100.00''\<rparr>]))))
     = [True, False]
   \<and> \<not> fst (adjustProductPrices storeRuntime increment_index (Some ''product-1'')
          (fresh (catalogStore
             [\<lparr>variant_id = ''v1'', price = ''100.00'', compareAtPrice = ''100.00''\<rparr>,
              \<lparr>variant_id = ''v2'', price = ''80.00'', compareAtPrice = ''100.00''\<rparr>])))
   \<and> fst (request erringRuntime (FETCH_PRODUCT_QUERY (Some ''product-1'')) (fresh emptyStore)) = Errors
   \<and> \<not> fst (adjustProductPrices erringRuntime increment_index (Some ''product-1'') (fresh emptyStore))
   \<and> js_lt (parseFloat ''95.00'') (parseFloat ''100.00'')
   \<and> \<not> mutationFailed (fst (request storeRuntime
          (UPDATE_PRODUCT_VARIANT_MUTATION ''v3'' (Fixed ''100.00''))
          (fresh (catalogStore
             [\<lparr>variant_id = ''v3'', price = ''95.00'', compareAtPrice = ''100.00''\<rparr>]))))
   \<and> js_eq (newPrice increment_index (parseFloat ''95.00'') (parseFloat ''100.00'')) (parseFloat ''100.00'')
   \<and> fst (incrementVariantPrice storeRuntime increment_index
        \<lparr>variant_id = ''v3'', price = ''95.00'', compareAtPrice = ''100.00''\<rparr>
        (fresh (catalogStore
           [\<lparr>variant_id = ''v3'', price = ''95.00'', compareAtPrice = ''100.00''\<rparr>])))"
proof -
  let ?vs = "[\<lparr>variant_id = ''v1'', price = ''100.00'', compareAtPrice = ''100.00''\<rparr>,
              \<lparr>variant_id = ''v2'', price = ''80.00'', compareAtPrice = ''100.00''\<rparr>]"
  let ?v3 = "\<lparr>variant_id = ''v3'', price = ''95.00'', compareAtPrice = ''100.00''\<rparr>"
  let ?s3 = "fresh (catalogStore [?v3])"
  have r: "stepResults storeRuntime increment_index ?vs
         (snd (request storeRuntime (FETCH_PRODUCT_QUERY (Some ''product-1'')) (fresh (catalogStore ?vs))))
     = [True, False]"
    by (simp add: eval)
  have e: "fst (request erringRuntime (FETCH_PRODUCT_QUERY (Some ''product-1'')) (fresh emptyStore)) = Errors"
    by (simp add: eval)
  have l: "js_lt (parseFloat ''95.00'') (parseFloat ''100.00'')"
    by (simp add: eval)
  have n: "newPrice increment_index (parseFloat ''95.00'') (parseFloat ''100.00'') = Fin 100"
    by (simp add: eval)
  have q: "js_eq (newPrice increment_index (parseFloat ''95.00'') (parseFloat ''100.00''))
             (parseFloat ''100.00'')"
    unfolding n by (simp add: parse_100)
  have t: "toFixed2 (Fin 100) = Fixed ''100.00''" by (simp add: eval)
  have m: "\<not> mutationFailed (fst (request storeRuntime
          (UPDATE_PRODUCT_VARIANT_MUTATION ''v3'' (Fixed ''100.00'')) ?s3))"
    by (simp add: eval)
  note A = orchestrator_conjunction[where rt = storeRuntime and pid = "Some ''product-1''"
      and s = "fresh (catalogStore ?vs)" and inc = increment_index and v = ?v3 and t = ?s3]
  note B = orchestrator_conjunction[where rt = erringRuntime and pid = "Some ''product-1''"
      and s = "fresh emptyStore" and inc = increment_index and v = ?v3 and t = ?s3]
  have c1: "\<not> fst (adjustProductPrices storeRuntime increment_index (Some ''product-1'')
          (fresh (catalogStore ?vs)))"
    using A[THEN conjunct1, THEN spec, THEN mp, OF fetch_two] unfolding product.simps r by simp
  have c2: "\<not> fst (adjustProductPrices erringRuntime increment_index (Some ''product-1'') (fresh emptyStore))"
    using B[THEN conjunct2, THEN conjunct1, THEN mp, OF disjI2, OF e] .
  have c3: "fst (incrementVariantPrice storeRuntime increment_index ?v3 ?s3)"
    using A[THEN conjunct2, THEN conjunct2] l q m unfolding variant.simps n t by blast
  show ?thesis using fetch_two r c1 e c2 l m q c3 by (intro conjI)
qed

text \<open>
  Claim C5 as stated fails on the code. In the first pass the only variant of the
  product is at \<open>1.13\<close> with the compare-at price \<open>11.13\<close>: the pass of \<open>index.js\<close> writes
  \<open>11.13\<close>, which the store takes, so that the variant is at its target after the pass;
  the pass returns \<open>false\<close>, since the double \<open>1.13 + 10\<close> is not the double \<open>11.13\<close>. In the
  second pass the compare-at price of the only variant is \<open>null\<close>: the variant has no
  target to reach, nothing is written, and the pass returns \<open>true\<close>.
\<close>

theorem reached_target_counterexample:
  "adjustProductPrices storeRuntime increment_index (Some ''product-1'')
      (fresh (catalogStore [\<lparr>variant_id = ''v1'', price = ''1.13'', compareAtPrice = ''11.13''\<rparr>]))
     = (False,
        \<lparr>world = catalogStore [\<lparr>variant_id = ''v1'', price = ''11.13'', compareAtPrice = ''11.13''\<rparr>],
         sent = [FETCH_PRODUCT_QUERY (Some ''product-1''),
                 UPDATE_PRODUCT_VARIANT_MUTATION ''v1'' (Fixed ''11.13'')]\<rparr>)
   \<and> adjustProductPrices storeRuntime increment_index (Some ''product-1'')
      (fresh (catalogStore [\<lparr>variant_id = ''v1'', price = ''80.00'', compareAtPrice = ''null''\<rparr>]))
     = (True,
        \<lparr>world = catalogStore [\<lparr>variant_id = ''v1'', price = ''80.00'', compareAtPrice = ''null''\<rparr>],
         sent = [FETCH_PRODUCT_QUERY (Some ''product-1'')]\<rparr>)
   \<and> adjustProductPrices storeRuntime priceIncrement (Some ''product-1'')
      (fresh (catalogStore [\<lparr>variant_id = ''v1'', price = ''80.00'', compareAtPrice = ''null''\<rparr>]))
     = (True,
        \<lparr>world = catalogStore [\<lparr>variant_id = ''v1'', price = ''80.00'', compareAtPrice = ''null''\<rparr>],
         sent = [FETCH_PRODUCT_QUERY (Some ''product-1'')]\<rparr>)"
proof -
  have a: "adjustProductPrices storeRuntime increment_index (Some ''product-1'')
      (fresh (catalogStore [\<lparr>variant_id = ''v1'', price = ''1.13'', compareAtPrice = ''11.13''\<rparr>]))
     = (False,
        \<lparr>world = catalogStore [\<lparr>variant_id = ''v1'', price = ''11.13'', compareAtPrice = ''11.13''\<rparr>],
         sent = [FETCH_PRODUCT_QUERY (Some ''product-1''),
                 UPDATE_PRODUCT_VARIANT_MUTATION ''v1'' (Fixed ''11.13'')]\<rparr>)"
    by (simp add: eval)
  have b: "adjustProductPrices storeRuntime inc (Some ''product-1'')
      (fresh (catalogStore [\<lparr>variant_id = ''v1'', price = ''80.00'', compareAtPrice = ''null''\<rparr>]))
     = (True,
        \<lparr>world = catalogStore [\<lparr>variant_id = ''v1'', price = ''80.00'', compareAtPrice = ''null''\<rparr>],
         sent = [FETCH_PRODUCT_QUERY (Some ''product-1'')]\<rparr>)" for inc
    by (simp add: adjustProductPrices_def incrementVariantPrice_def parse_80 parse_null eval_store)
  show ?thesis using a b by (intro conjI)
qed

section \<open>Failed and successful mutations\<close>

text \<open>
  Claim C6. Let the mutation of a variant \<open>v\<close> fail in a pass over a fetched product,
  by a thrown error, an \<open>errors\<close> payload or user errors. Then the Stepper returns
  \<open>false\<close> for \<open>v\<close> and has done nothing but issue the request; the pass goes on with
  the variants after \<open>v\<close>, so that the requests of the pass are the fetch and the mutations
  of all variants of the product, those after \<open>v\<close> included; the pass reports \<open>false\<close>; and
  the tracked deals are after the pass what they were before it, in both source files.
  (The Stepper has no access to the tracked deals: they are not among its arguments.)
\<close>

theorem failure_isolation:
  assumes fetched: "fst (request rt (FETCH_PRODUCT_QUERY pid) s) = Data (ProductData (Some p))"
    and parts: "variants p = pre @ v # post"
    and before: "s1 = snd (forVariants rt inc pre (True, snd (request rt (FETCH_PRODUCT_QUERY pid) s)))"
    and below: "js_lt (parseFloat (price v)) (parseFloat (compareAtPrice v))"
    and mutation: "m = UPDATE_PRODUCT_VARIANT_MUTATION (variant_id v)
                     (toFixed2 (newPrice inc (parseFloat (price v)) (parseFloat (compareAtPrice v))))"
    and failed: "mutationFailed (fst (request rt m s1))"
  shows "incrementVariantPrice rt inc v s1 = (False, snd (request rt m s1))
    \<and> adjustProductPrices rt inc pid s = forVariants rt inc post (False, snd (request rt m s1))
    \<and> issued s (snd (adjustProductPrices rt inc pid s))
        = FETCH_PRODUCT_QUERY pid # concat (map (mutationsFor inc) (pre @ v # post))
    \<and> \<not> fst (adjustProductPrices rt inc pid s)
    \<and> (inc = increment_index \<and> fieldsObject (deal_fields d) ''product'' = pid \<longrightarrow>
         fst (adjustDeal rt d (trackedDeals, s)) = trackedDeals)
    \<and> (inc = priceIncrement \<and> fieldsObject (deal_fields d) ''product'' = pid \<longrightarrow>
         fst (adjustDeal_flag rt d (flags, s)) = flags)"
proof -
  let ?s0 = "snd (request rt (FETCH_PRODUCT_QUERY pid) s)"
  have step: "incrementVariantPrice rt inc v s1 = (False, snd (request rt m s1))"
    using increment_failed[of v rt inc s1] below failed by (simp add: mutation)
  have pre: "forVariants rt inc pre (True, ?s0) = (fst (forVariants rt inc pre (True, ?s0)), s1)"
    by (simp add: before)
  have "adjustProductPrices rt inc pid s = forVariants rt inc (pre @ v # post) (True, ?s0)"
    using adjust_fetched[OF fetched] by (simp add: parts)
  also have "\<dots> = forVariants rt inc (v # post) (fst (forVariants rt inc pre (True, ?s0)), s1)"
    by (subst forVariants_append) (subst pre, rule refl)
  also have "\<dots> = forVariants rt inc post (False, snd (request rt m s1))"
    by (simp add: step)
  finally have pass: "adjustProductPrices rt inc pid s = forVariants rt inc post (False, snd (request rt m s1))" .
  have res: "\<not> fst (adjustProductPrices rt inc pid s)"
    by (simp add: pass forVariants_False)
  have "sent (snd (adjustProductPrices rt inc pid s))
          = sent s @ FETCH_PRODUCT_QUERY pid # concat (map (mutationsFor inc) (pre @ v # post))"
    using adjust_fetched[OF fetched, of inc]
    by (simp add: parts sent_forVariants sent_request)
  then have iss: "issued s (snd (adjustProductPrices rt inc pid s))
        = FETCH_PRODUCT_QUERY pid # concat (map (mutationsFor inc) (pre @ v # post))"
    by (rule issued_append)
  have t1: "inc = increment_index \<and> fieldsObject (deal_fields d) ''product'' = pid \<longrightarrow>
         fst (adjustDeal rt d (trackedDeals, s)) = trackedDeals"
    using res by (auto simp: adjustDeal_def split: prod.splits)
  have t2: "inc = priceIncrement \<and> fieldsObject (deal_fields d) ''product'' = pid \<longrightarrow>
         fst (adjustDeal_flag rt d (flags, s)) = flags"
    using res by (auto simp: adjustDeal_flag_def split: prod.splits)
  show ?thesis using step pass iss res t1 t2 by blast
qed

text \<open>
  Claim C7, as amended. When a mutation is issued and succeeds, the result of the Stepper
  is the strict equality of the new price and the parsed compare-at price, two doubles,
  neither of them rounded to two decimals: it is \<open>true\<close> when the difference was below
  the increment, and else when the smaller of the sum and the compare-at price is the
  compare-at price itself.
\<close>

theorem completion_is_strict_equality:
  assumes "js_lt (parseFloat (price v)) (parseFloat (compareAtPrice v))"
    and "fst (request rt (UPDATE_PRODUCT_VARIANT_MUTATION (variant_id v)
           (toFixed2 (newPrice inc (parseFloat (price v)) (parseFloat (compareAtPrice v))))) s)
         = Data (ProductVariantUpdate [])"
  shows "fst (incrementVariantPrice rt inc v s)
           = js_eq (newPrice inc (parseFloat (price v)) (parseFloat (compareAtPrice v)))
               (parseFloat (compareAtPrice v))
    \<and> fst (incrementVariantPrice rt inc v s)
           = (js_lt (js_sub (parseFloat (compareAtPrice v)) (parseFloat (price v))) inc
              \<or> js_eq (js_min (js_add (parseFloat (price v)) inc) (parseFloat (compareAtPrice v)))
                   (parseFloat (compareAtPrice v)))"
proof -
  have eq: "js_eq (parseFloat (compareAtPrice v)) (parseFloat (compareAtPrice v))"
    using assms(1) by (cases "parseFloat (price v)"; cases "parseFloat (compareAtPrice v)") simp_all
  obtain r s' where q: "request rt (UPDATE_PRODUCT_VARIANT_MUTATION (variant_id v)
           (toFixed2 (newPrice inc (parseFloat (price v)) (parseFloat (compareAtPrice v))))) s = (r, s')"
    by (cases "request rt (UPDATE_PRODUCT_VARIANT_MUTATION (variant_id v)
           (toFixed2 (newPrice inc (parseFloat (price v)) (parseFloat (compareAtPrice v))))) s")
  with assms(2) have r: "r = Data (ProductVariantUpdate [])" by simp
  have 1: "fst (incrementVariantPrice rt inc v s)
           = js_eq (newPrice inc (parseFloat (price v)) (parseFloat (compareAtPrice v)))
               (parseFloat (compareAtPrice v))"
    using assms(1) by (simp add: incrementVariantPrice_def Let_def q r)
  show ?thesis
    using eq by (simp add: 1) (simp add: newPrice_def Let_def)
qed

theorem failure_isolation_witness:
  "mutationFailed (fst (request storeRuntime (UPDATE_PRODUCT_VARIANT_MUTATION ''v1'' (Fixed ''90.00''))
      (snd (request storeRuntime (FETCH_PRODUCT_QUERY (Some ''product-1''))
         (fresh ((catalogStore
            [\<lparr>variant_id = ''v1'', price = ''80.00'', compareAtPrice = ''100.00''\<rparr>,
             \<lparr>variant_id = ''v2'', price = ''50.00'', compareAtPrice = ''100.00''\<rparr>])
            \<lparr>refusedVariants := [''v1'']\<rparr>))))))
   \<and> issued (fresh ((catalogStore
            [\<lparr>variant_id = ''v1'', price = ''80.00'', compareAtPrice = ''100.00''\<rparr>,
             \<lparr>variant_id = ''v2'', price = ''50.00'', compareAtPrice = ''100.00''\<rparr>])
            \<lparr>refusedVariants := [''v1'']\<rparr>))
        (snd (adjustProductPrices storeRuntime increment_index (Some ''product-1'')
           (fresh ((catalogStore
            [\<lparr>variant_id = ''v1'', price = ''80.00'', compareAtPrice = ''100.00''\<rparr>,
             \<lparr>variant_id = ''v2'', price = ''50.00'', compareAtPrice = ''100.00''\<rparr>])
            \<lparr>refusedVariants := [''v1'']\<rparr>))))
      = [FETCH_PRODUCT_QUERY (Some ''product-1''),
         UPDATE_PRODUCT_VARIANT_MUTATION ''v1'' (Fixed ''90.00''),
         UPDATE_PRODUCT_VARIANT_MUTATION ''v2'' (Fixed ''60.00'')]
   \<and> \<not> fst (adjustProductPrices storeRuntime increment_index (Some ''product-1'')
           (fresh ((catalogStore
            [\<lparr>variant_id = ''v1'', price = ''80.00'', compareAtPrice = ''100.00''\<rparr>,
             \<lparr>variant_id = ''v2'', price = ''50.00'', compareAtPrice = ''100.00''\<rparr>])
            \<lparr>refusedVariants := [''v1'']\<rparr>)))
   \<and> fst (adjustDeal storeRuntime dealOne ({''deal-1''},
           fresh ((catalogStore
            [\<lparr>variant_id = ''v1'', price = ''80.00'', compareAtPrice = ''100.00''\<rparr>,
             \<lparr>variant_id = ''v2'', price = ''50.00'', compareAtPrice = ''100.00''\<rparr>])
            \<lparr>refusedVariants := [''v1'']\<rparr>))) = {''deal-1''}"
proof -
  let ?v1 = "\<lparr>variant_id = ''v1'', price = ''80.00'', compareAtPrice = ''100.00''\<rparr>"
  let ?v2 = "\<lparr>variant_id = ''v2'', price = ''50.00'', compareAtPrice = ''100.00''\<rparr>"
  let ?s = "fresh ((catalogStore [?v1, ?v2])\<lparr>refusedVariants := [''v1'']\<rparr>)"
  let ?pid = "Some ''product-1''"
  let ?afterFetch = "snd (request storeRuntime (FETCH_PRODUCT_QUERY ?pid) ?s)"
  let ?m = "UPDATE_PRODUCT_VARIANT_MUTATION (variant_id ?v1)
              (toFixed2 (newPrice increment_index (parseFloat (price ?v1)) (parseFloat (compareAtPrice ?v1))))"
  have h1: "fst (request storeRuntime (FETCH_PRODUCT_QUERY ?pid) ?s)
              = Data (ProductData (Some \<lparr>title = ''Mug'', variants = [?v1, ?v2]\<rparr>))"
    by (simp add: eval)
  have h2: "variants \<lparr>title = ''Mug'', variants = [?v1, ?v2]\<rparr> = [] @ ?v1 # [?v2]"
    by simp
  have h3: "?afterFetch = snd (forVariants storeRuntime increment_index [] (True, ?afterFetch))"
    by simp
  have h4: "js_lt (parseFloat (price ?v1)) (parseFloat (compareAtPrice ?v1))"
    by (simp add: parse_80 parse_100)
  have m: "?m = UPDATE_PRODUCT_VARIANT_MUTATION ''v1'' (Fixed ''90.00'')"
    by (simp add: eval)
  have h6: "mutationFailed (fst (request storeRuntime ?m ?afterFetch))"
    by (simp add: eval)
  have e1: "concat (map (mutationsFor increment_index) ([] @ ?v1 # [?v2]))
              = [UPDATE_PRODUCT_VARIANT_MUTATION ''v1'' (Fixed ''90.00''),
                 UPDATE_PRODUCT_VARIANT_MUTATION ''v2'' (Fixed ''60.00'')]"
    by (simp add: eval)
  have e2: "fieldsObject (deal_fields dealOne) ''product'' = ?pid"
    by (simp add: eval)
  note T = failure_isolation[where rt = storeRuntime and pid = ?pid and s = ?s
      and p = "\<lparr>title = ''Mug'', variants = [?v1, ?v2]\<rparr>" and pre = "[]" and v = ?v1
      and post = "[?v2]" and ?s1.0 = ?afterFetch and inc = increment_index and m = ?m and d = dealOne
      and trackedDeals = "{''deal-1''}", OF h1 h2 h3 h4 refl h6]
  note c3 = T[THEN conjunct2, THEN conjunct2, THEN conjunct1]
  note c4 = T[THEN conjunct2, THEN conjunct2, THEN conjunct2, THEN conjunct1]
  note c5 = T[THEN conjunct2, THEN conjunct2, THEN conjunct2, THEN conjunct2, THEN conjunct1,
      THEN mp, OF conjI[OF refl e2]]
  have i: "issued ?s (snd (adjustProductPrices storeRuntime increment_index ?pid ?s))
      = [FETCH_PRODUCT_QUERY ?pid,
         UPDATE_PRODUCT_VARIANT_MUTATION ''v1'' (Fixed ''90.00''),
         UPDATE_PRODUCT_VARIANT_MUTATION ''v2'' (Fixed ''60.00'')]"
    using c3 unfolding e1 .
  have f: "mutationFailed (fst (request storeRuntime
             (UPDATE_PRODUCT_VARIANT_MUTATION ''v1'' (Fixed ''90.00'')) ?afterFetch))"
    using h6 unfolding m .
  show ?thesis
    using f i c4 c5 by (intro conjI)
qed

theorem completion_is_strict_equality_witness:
  "js_lt (parseFloat ''95.00'') (parseFloat ''100.00'')
   \<and> fst (request storeRuntime (UPDATE_PRODUCT_VARIANT_MUTATION ''v1'' (Fixed ''100.00''))
        (fresh (catalogStore [\<lparr>variant_id = ''v1'', price = ''95.00'', compareAtPrice = ''100.00''\<rparr>])))
      = Data (ProductVariantUpdate [])
   \<and> fst (incrementVariantPrice storeRuntime increment_index
        \<lparr>variant_id = ''v1'', price = ''95.00'', compareAtPrice = ''100.00''\<rparr>
        (fresh (catalogStore [\<lparr>variant_id = ''v1'', price = ''95.00'', compareAtPrice = ''100.00''\<rparr>])))"
proof -
  let ?v = "\<lparr>variant_id = ''v1'', price = ''95.00'', compareAtPrice = ''100.00''\<rparr>"
  let ?s = "fresh (catalogStore [?v])"
  have h1: "js_lt (parseFloat (price ?v)) (parseFloat (compareAtPrice ?v))"
    by (simp add: eval)
  have n: "toFixed2 (newPrice increment_index (parseFloat (price ?v)) (parseFloat (compareAtPrice ?v)))
             = Fixed ''100.00''"
    by (simp add: eval)
  have h2: "fst (request storeRuntime (UPDATE_PRODUCT_VARIANT_MUTATION (variant_id ?v)
           (toFixed2 (newPrice increment_index (parseFloat (price ?v)) (parseFloat (compareAtPrice ?v))))) ?s)
         = Data (ProductVariantUpdate [])"
    by (simp add: eval)
  have e: "js_eq (newPrice increment_index (parseFloat (price ?v)) (parseFloat (compareAtPrice ?v)))
             (parseFloat (compareAtPrice ?v))"
    by (simp add: eval)
  have r: "fst (incrementVariantPrice storeRuntime increment_index ?v ?s)"
    using completion_is_strict_equality[OF h1 h2] e by blast
  have h1': "js_lt (parseFloat ''95.00'') (parseFloat ''100.00'')"
    using h1 by simp
  have h2': "fst (request storeRuntime (UPDATE_PRODUCT_VARIANT_MUTATION ''v1'' (Fixed ''100.00'')) ?s)
         = Data (ProductVariantUpdate [])"
    using h2 unfolding n by simp
  show ?thesis
    using h1' h2' r by blast
qed

text \<open>
  Claim C7 as stated fails on the code. In \<open>index.js\<close> a variant at \<open>1.13\<close> with the
  compare-at price \<open>11.13\<close> is ten away from its target, so the new price is the smaller
  of the sum \<open>1.13 + 10\<close> and \<open>11.13\<close>. The sum is the double just below the double of
  \<open>11.13\<close>: the mutation sets the price \<open>11.13\<close>, which is the compare-at price, rounded
  to two decimals or not, and succeeds; yet the Stepper returns \<open>false\<close>.
\<close>

theorem rounding_tolerance_counterexample:
  "fst (request storeRuntime (UPDATE_PRODUCT_VARIANT_MUTATION ''v1'' (Fixed ''11.13''))
        (fresh (catalogStore [\<lparr>variant_id = ''v1'', price = ''1.13'', compareAtPrice = ''11.13''\<rparr>])))
      = Data (ProductVariantUpdate [])
   \<and> issued (fresh (catalogStore [\<lparr>variant_id = ''v1'', price = ''1.13'', compareAtPrice = ''11.13''\<rparr>]))
        (snd (incrementVariantPrice storeRuntime increment_index
           \<lparr>variant_id = ''v1'', price = ''1.13'', compareAtPrice = ''11.13''\<rparr>
           (fresh (catalogStore [\<lparr>variant_id = ''v1'', price = ''1.13'', compareAtPrice = ''11.13''\<rparr>]))))
      = [UPDATE_PRODUCT_VARIANT_MUTATION ''v1'' (Fixed ''11.13'')]
   \<and> toFixed2 (parseFloat ''11.13'') = Fixed ''11.13''
   \<and> \<not> fst (incrementVariantPrice storeRuntime increment_index
           \<lparr>variant_id = ''v1'', price = ''1.13'', compareAtPrice = ''11.13''\<rparr>
           (fresh (catalogStore [\<lparr>variant_id = ''v1'', price = ''1.13'', compareAtPrice = ''11.13''\<rparr>])))"
proof -
  let ?v = "\<lparr>variant_id = ''v1'', price = ''1.13'', compareAtPrice = ''11.13''\<rparr>"
  let ?s = "fresh (catalogStore [?v])"
  have a: "fst (request storeRuntime (UPDATE_PRODUCT_VARIANT_MUTATION ''v1'' (Fixed ''11.13'')) ?s)
      = Data (ProductVariantUpdate [])"
    by (simp add: eval)
  have b: "issued ?s (snd (incrementVariantPrice storeRuntime increment_index ?v ?s))
      = [UPDATE_PRODUCT_VARIANT_MUTATION ''v1'' (Fixed ''11.13'')]"
    by (simp add: eval)
  have c: "toFixed2 (parseFloat ''11.13'') = Fixed ''11.13''"
    by (simp add: eval)
  have d: "\<not> fst (incrementVariantPrice storeRuntime increment_index ?v ?s)"
    by (simp add: eval)
  show ?thesis using a b c d by blast
qed

section \<open>Properties of the Scanner and the Tracker\<close>

lemma markers_request:
  "startMarkers x (snd (request rt r s))
     = startMarkers x s + (if r = UPDATE_DEAL_MUTATION x then 1 else 0)"
  by (simp add: startMarkers_def sent_request)

lemma count_mutationsFor: "count_list (mutationsFor inc v) (UPDATE_DEAL_MUTATION x) = 0"
  by (simp add: mutationsFor_def)

lemma markers_forVariants:
  "startMarkers x (snd (forVariants rt inc vs (b, s))) = startMarkers x s"
proof -
  have "count_list (concat (map (mutationsFor inc) vs)) (UPDATE_DEAL_MUTATION x) = 0"
    by (induction vs) (simp_all add: count_mutationsFor)
  then show ?thesis by (simp add: startMarkers_def sent_forVariants)
qed

lemma markers_adjust:
  "startMarkers x (snd (adjustProductPrices rt inc pid s)) = startMarkers x s"
proof (cases "\<exists>p. fst (request rt (FETCH_PRODUCT_QUERY pid) s) = Data (ProductData (Some p))")
  case True
  then obtain p where "fst (request rt (FETCH_PRODUCT_QUERY pid) s) = Data (ProductData (Some p))"
    by blast
  then show ?thesis
    by (simp add: adjust_fetched markers_forVariants markers_request)
next
  case False
  then show ?thesis
    by (simp add: adjust_not_fetched markers_request)
qed

lemma startDeal_tracked: "deal_id d \<in> T \<Longrightarrow> startDeal rt d (T, s) = (T, s)"
  by (simp add: startDeal_def)

lemma startDeal_other:
  "x \<noteq> deal_id d \<Longrightarrow>
   (x \<in> fst (startDeal rt d (T, s))) = (x \<in> T)
   \<and> startMarkers x (snd (startDeal rt d (T, s))) = startMarkers x s"
  by (simp add: startDeal_def updateDeal_def markers_request Let_def)

lemma adjustDeal_other:
  "x \<noteq> deal_id d \<Longrightarrow> (x \<in> fst (adjustDeal rt d (T, s))) = (x \<in> T)"
  by (auto simp: adjustDeal_def split: prod.splits)

lemma markers_adjustDeal:
  "startMarkers x (snd (adjustDeal rt d (T, s))) = startMarkers x s"
proof (cases "deal_id d \<in> T")
  case True
  obtain c s' where a: "adjustProductPrices rt increment_index (fieldsObject (deal_fields d) ''product'') s = (c, s')"
    by (cases "adjustProductPrices rt increment_index (fieldsObject (deal_fields d) ''product'') s")
  have "startMarkers x s' = startMarkers x s"
    using markers_adjust[of x rt increment_index "fieldsObject (deal_fields d) ''product''" s]
    by (simp add: a)
  then show ?thesis using True by (simp add: adjustDeal_def a)
next
  case False
  then show ?thesis by (simp add: adjustDeal_def)
qed

lemma processDeal_other:
  assumes "x \<noteq> deal_id d"
  shows "(x \<in> fst (processDeal rt (T, s) d)) = (x \<in> T)
   \<and> startMarkers x (snd (processDeal rt (T, s) d)) = startMarkers x s"
proof -
  obtain T' s' where st: "startDeal rt d (T, s) = (T', s')"
    by (cases "startDeal rt d (T, s)")
  have 1: "(x \<in> T') = (x \<in> T)" and 2: "startMarkers x s' = startMarkers x s"
    using startDeal_other[OF assms, of rt T s] by (simp_all add: st)
  show ?thesis
    using adjustDeal_other[OF assms, of rt T' s'] markers_adjustDeal[of x rt d T' s']
    by (simp add: processDeal_def st 1 2)
qed

lemma processDeal_tracked:
  assumes "deal_id d \<in> T"
  shows "processDeal rt (T, s) d = adjustDeal rt d (T, s)"
    and "startMarkers x (snd (processDeal rt (T, s) d)) = startMarkers x s"
  using assms by (simp_all add: processDeal_def startDeal_tracked markers_adjustDeal)

lemma foldl_processDeal_others:
  "x \<notin> deal_id ` set ds \<Longrightarrow>
   (x \<in> fst (foldl (processDeal rt) (T, s) ds)) = (x \<in> T)
   \<and> startMarkers x (snd (foldl (processDeal rt) (T, s) ds)) = startMarkers x s"
proof (induction ds arbitrary: T s)
  case Nil
  show ?case by simp
next
  case (Cons d ds)
  obtain T' s' where p: "processDeal rt (T, s) d = (T', s')"
    by (cases "processDeal rt (T, s) d")
  have x: "x \<noteq> deal_id d" and r: "x \<notin> deal_id ` set ds" using Cons.prems by auto
  show ?case
    using processDeal_other[OF x, of rt T s] Cons.IH[OF r, of T' s']
    by (simp add: p)
qed

lemma foldl_processDeal_markers:
  "distinct (map deal_id ds) \<Longrightarrow> x \<in> T \<or> x \<notin> deal_id ` set ds \<Longrightarrow>
   startMarkers x (snd (foldl (processDeal rt) (T, s) ds)) = startMarkers x s"
proof (induction ds arbitrary: T s)
  case Nil
  show ?case by simp
next
  case (Cons d ds)
  obtain T' s' where p: "processDeal rt (T, s) d = (T', s')"
    by (cases "processDeal rt (T, s) d")
  have dist: "distinct (map deal_id ds)" and fresh: "deal_id d \<notin> deal_id ` set ds"
    using Cons.prems(1) by auto
  show ?case
  proof (cases "x = deal_id d")
    case True
    then have "x \<in> T" using Cons.prems(2) by auto
    then have m: "startMarkers x s' = startMarkers x s"
      using processDeal_tracked(2)[of d T x rt s] True by (simp add: p)
    have "x \<in> T' \<or> x \<notin> deal_id ` set ds" using fresh True by simp
    from Cons.IH[OF dist this, of s'] show ?thesis by (simp add: p m)
  next
    case False
    from processDeal_other[OF False, of rt T s]
    have 1: "(x \<in> T') = (x \<in> T)" and 2: "startMarkers x s' = startMarkers x s"
      by (simp_all add: p)
    have "x \<in> T' \<or> x \<notin> deal_id ` set ds" using Cons.prems(2) False 1 by auto
    from Cons.IH[OF dist this, of s'] show ?thesis by (simp add: p 2)
  qed
qed

lemma fetch_cases:
  obtains (scanned) ds where "fst (request rt FETCH_DEALS_QUERY s) = Data (Metaobjects ds)"
      "fetchAndProcessDeals rt (T, s) = foldl (processDeal rt) (T, snd (request rt FETCH_DEALS_QUERY s)) ds"
  | (failed) "\<forall>ds. fst (request rt FETCH_DEALS_QUERY s) \<noteq> Data (Metaobjects ds)"
      "fetchAndProcessDeals rt (T, s) = (T, snd (request rt FETCH_DEALS_QUERY s))"
proof -
  obtain r s' where q: "request rt FETCH_DEALS_QUERY s = (r, s')"
    by (cases "request rt FETCH_DEALS_QUERY s")
  show ?thesis
  proof (cases "\<exists>ds. r = Data (Metaobjects ds)")
    case True
    then obtain ds where "r = Data (Metaobjects ds)" by blast
    then show ?thesis using scanned[of ds] by (simp add: fetchAndProcessDeals_def q)
  next
    case False
    then have "fetchAndProcessDeals rt (T, s) = (T, s')"
      by (simp add: fetchAndProcessDeals_def q split: response.splits data.splits)
    then show ?thesis using failed False by (simp add: q)
  qed
qed

lemma startDeal_flag_tracked:
  "deal_id d \<in> dom flags \<Longrightarrow> startDeal_flag rt d (flags, s) = (flags, s)"
  by (simp add: startDeal_flag_def js_in_def)

lemma processDeal_flag_other:
  "x \<noteq> deal_id d \<Longrightarrow> fst (processDeal_flag rt (flags, s) d) x = flags x"
  by (auto simp: processDeal_flag_def startDeal_flag_def adjustDeal_flag_def js_in_def js_get_def
      Let_def split: prod.splits if_splits)

lemma processDeal_flag_complete:
  "flags x = Some True \<Longrightarrow> fst (processDeal_flag rt (flags, s) d) x = Some True"
  by (auto simp: processDeal_flag_def startDeal_flag_def adjustDeal_flag_def js_in_def js_get_def
      Let_def split: prod.splits if_splits)

lemma processDeal_flag_dom:
  "x \<in> dom flags \<Longrightarrow> x \<in> dom (fst (processDeal_flag rt (flags, s) d))"
  by (auto simp: processDeal_flag_def startDeal_flag_def adjustDeal_flag_def js_in_def js_get_def
      Let_def split: prod.splits if_splits)

lemma processDeal_flag_active:
  assumes "flags (deal_id d) = Some False"
  shows "fst (processDeal_flag rt (flags, s) d) (deal_id d)
           = Some (fst (adjustProductPrices rt priceIncrement (fieldsObject (deal_fields d) ''product'') s))"
proof -
  have "deal_id d \<in> dom flags" using assms by auto
  then have "startDeal_flag rt d (flags, s) = (flags, s)" by (rule startDeal_flag_tracked)
  then show ?thesis
    using assms
    by (auto simp: processDeal_flag_def adjustDeal_flag_def js_in_def js_get_def split: prod.splits)
qed

lemma foldl_flag_others:
  "x \<notin> deal_id ` set ds \<Longrightarrow> fst (foldl (processDeal_flag rt) (flags, s) ds) x = flags x"
proof (induction ds arbitrary: flags s)
  case Nil
  show ?case by simp
next
  case (Cons d ds)
  obtain F' s' where p: "processDeal_flag rt (flags, s) d = (F', s')"
    by (cases "processDeal_flag rt (flags, s) d")
  have x: "x \<noteq> deal_id d" and r: "x \<notin> deal_id ` set ds" using Cons.prems by auto
  show ?case
    using processDeal_flag_other[OF x, of rt flags s] Cons.IH[OF r, of F' s']
    by (simp add: p)
qed

lemma foldl_flag_complete:
  "flags x = Some True \<Longrightarrow> fst (foldl (processDeal_flag rt) (flags, s) ds) x = Some True"
proof (induction ds arbitrary: flags s)
  case Nil
  then show ?case by simp
next
  case (Cons d ds)
  obtain F' s' where p: "processDeal_flag rt (flags, s) d = (F', s')"
    by (cases "processDeal_flag rt (flags, s) d")
  have "F' x = Some True"
    using processDeal_flag_complete[of flags x rt s d] Cons.prems by (simp add: p)
  with Cons.IH[of F' s'] show ?case by (simp add: p)
qed

lemma foldl_flag_dom:
  "x \<in> dom flags \<Longrightarrow> x \<in> dom (fst (foldl (processDeal_flag rt) (flags, s) ds))"
proof (induction ds arbitrary: flags s)
  case Nil
  then show ?case by simp
next
  case (Cons d ds)
  obtain F' s' where p: "processDeal_flag rt (flags, s) d = (F', s')"
    by (cases "processDeal_flag rt (flags, s) d")
  have "x \<in> dom F'"
    using processDeal_flag_dom[OF Cons.prems, of rt s d] by (simp add: p)
  from Cons.IH[OF this, of s'] show ?case by (simp add: p)
qed

lemma fetch_flag_cases:
  obtains (scanned) ds where "fst (request rt FETCH_DEALS_QUERY s) = Data (Metaobjects ds)"
      "fetchAndProcessDeals_flag rt (flags, s)
         = foldl (processDeal_flag rt) (flags, snd (request rt FETCH_DEALS_QUERY s)) ds"
  | (failed) "\<forall>ds. fst (request rt FETCH_DEALS_QUERY s) \<noteq> Data (Metaobjects ds)"
      "fetchAndProcessDeals_flag rt (flags, s) = (flags, snd (request rt FETCH_DEALS_QUERY s))"
proof -
  obtain r s' where q: "request rt FETCH_DEALS_QUERY s = (r, s')"
    by (cases "request rt FETCH_DEALS_QUERY s")
  show ?thesis
  proof (cases "\<exists>ds. r = Data (Metaobjects ds)")
    case True
    then obtain ds where "r = Data (Metaobjects ds)" by blast
    then show ?thesis using scanned[of ds] by (simp add: fetchAndProcessDeals_flag_def q)
  next
    case False
    then have "fetchAndProcessDeals_flag rt (flags, s) = (flags, s')"
      by (simp add: fetchAndProcessDeals_flag_def q split: response.splits data.splits)
    then show ?thesis using failed False by (simp add: q)
  qed
qed

lemma cycle_flag_complete:
  "flags x = Some True \<Longrightarrow> fst (fetchAndProcessDeals_flag rt (flags, s)) x = Some True"
  by (cases rule: fetch_flag_cases[of rt s flags]) (simp_all add: foldl_flag_complete)

lemma cycle_flag_dom:
  "x \<in> dom flags \<Longrightarrow> x \<in> dom (fst (fetchAndProcessDeals_flag rt (flags, s)))"
  by (cases rule: fetch_flag_cases[of rt s flags]) (simp_all add: foldl_flag_dom)

lemma main_flag_complete:
  "flags x = Some True \<Longrightarrow> fst (main_flag rt n (flags, s)) x = Some True"
proof (induction n arbitrary: flags s)
  case 0
  then show ?case by simp
next
  case (Suc n)
  obtain F' s' where c: "fetchAndProcessDeals_flag rt (flags, s) = (F', s')"
    by (cases "fetchAndProcessDeals_flag rt (flags, s)")
  have "F' x = Some True"
    using cycle_flag_complete[of flags x rt s] Suc.prems by (simp add: c)
  with Suc.IH[of F' "sleeping rt s'"] show ?case by (simp add: c)
qed

lemma main_flag_dom:
  "x \<in> dom flags \<Longrightarrow> x \<in> dom (fst (main_flag rt n (flags, s)))"
proof (induction n arbitrary: flags s)
  case 0
  then show ?case by simp
next
  case (Suc n)
  obtain F' s' where c: "fetchAndProcessDeals_flag rt (flags, s) = (F', s')"
    by (cases "fetchAndProcessDeals_flag rt (flags, s)")
  have "x \<in> dom F'"
    using cycle_flag_dom[OF Suc.prems, of rt s] by (simp add: c)
  from Suc.IH[OF this] show ?case by (simp add: c)
qed

text \<open>
  Claim C3, as amended. In \<open>index.js\<close>, a deal that is tracked when it is scanned is not
  started: the start leaves the tracked deals and the surroundings as they are, whatever
  the fields of the deal; and in a cycle whose deal records have distinct identifiers, no
  start-marker mutation is issued for a deal tracked at the beginning of the cycle. In the
  other source file the start of a tracked deal does nothing either; and over any number
  of iterations of \<open>main\<close> a tracked deal stays tracked and a completed deal stays
  completed, so that a deal is started at most once and its progress is never reset.
\<close>

theorem tracked_deal_not_restarted:
  "(deal_id d \<in> trackedDeals \<longrightarrow> startDeal rt d (trackedDeals, s) = (trackedDeals, s))
   \<and> (x \<in> trackedDeals
       \<and> (\<forall>ds. fst (request rt FETCH_DEALS_QUERY s) = Data (Metaobjects ds) \<longrightarrow> distinct (map deal_id ds))
      \<longrightarrow> startMarkers x (snd (fetchAndProcessDeals rt (trackedDeals, s))) = startMarkers x s)
   \<and> (deal_id d \<in> dom flags \<longrightarrow> startDeal_flag rt d (flags, s) = (flags, s))
   \<and> (x \<in> dom flags \<longrightarrow> x \<in> dom (fst (main_flag rt n (flags, s))))
   \<and> (flags x = Some True \<longrightarrow> fst (main_flag rt n (flags, s)) x = Some True)"
proof (intro conjI impI)
  assume "deal_id d \<in> trackedDeals"
  then show "startDeal rt d (trackedDeals, s) = (trackedDeals, s)" by (rule startDeal_tracked)
next
  assume a: "x \<in> trackedDeals
       \<and> (\<forall>ds. fst (request rt FETCH_DEALS_QUERY s) = Data (Metaobjects ds) \<longrightarrow> distinct (map deal_id ds))"
  show "startMarkers x (snd (fetchAndProcessDeals rt (trackedDeals, s))) = startMarkers x s"
  proof (cases rule: fetch_cases[of rt s trackedDeals])
    case (scanned ds)
    then have "distinct (map deal_id ds)" using a by blast
    then show ?thesis
      using a foldl_processDeal_markers[of ds x trackedDeals rt "snd (request rt FETCH_DEALS_QUERY s)"]
      by (simp add: scanned(2) markers_request)
  next
    case failed
    then show ?thesis by (simp add: markers_request)
  qed
next
  assume "deal_id d \<in> dom flags"
  then show "startDeal_flag rt d (flags, s) = (flags, s)" by (rule startDeal_flag_tracked)
next
  assume "x \<in> dom flags"
  then show "x \<in> dom (fst (main_flag rt n (flags, s)))" by (rule main_flag_dom)
next
  assume "flags x = Some True"
  then show "fst (main_flag rt n (flags, s)) x = Some True" by (rule main_flag_complete)
qed

text \<open>
  Claim C4, as amended. Take a cycle whose fetch returns deal records with the record
  \<open>d\<close> among them, the only one with its identifier. In \<open>index.js\<close>, if the deal is tracked
  at the beginning of the cycle, then it is tracked at the end if and only if its
  Orchestrator pass, run after the deals before it, did not report completion: the
  entry is removed exactly on completion. A tracked deal that the cycle does not scan,
  also because the fetch failed, stays as it is. In the other source file the entry is
  never removed: the flag of a deal in recovery is, at the end of the cycle, what its
  Orchestrator pass reported; and the entry of a completed deal, or of a deal that the
  cycle does not scan, is unchanged.
\<close>

theorem completion_on_full_pass:
  "(fst (request rt FETCH_DEALS_QUERY s) = Data (Metaobjects (pre @ d # post))
      \<and> deal_id d \<notin> deal_id ` set (pre @ post) \<and> deal_id d \<in> trackedDeals \<longrightarrow>
    (deal_id d \<in> fst (fetchAndProcessDeals rt (trackedDeals, s)))
      = (\<not> fst (adjustProductPrices rt increment_index (fieldsObject (deal_fields d) ''product'')
               (snd (foldl (processDeal rt) (trackedDeals, snd (request rt FETCH_DEALS_QUERY s)) pre)))))
   \<and> ((\<forall>ds. fst (request rt FETCH_DEALS_QUERY s) = Data (Metaobjects ds) \<longrightarrow> x \<notin> deal_id ` set ds) \<longrightarrow>
      (x \<in> fst (fetchAndProcessDeals rt (trackedDeals, s))) = (x \<in> trackedDeals))
   \<and> (fst (request rt FETCH_DEALS_QUERY s) = Data (Metaobjects (pre @ d # post))
      \<and> deal_id d \<notin> deal_id ` set (pre @ post) \<and> flags (deal_id d) = Some False \<longrightarrow>
    fst (fetchAndProcessDeals_flag rt (flags, s)) (deal_id d)
      = Some (fst (adjustProductPrices rt priceIncrement (fieldsObject (deal_fields d) ''product'')
               (snd (foldl (processDeal_flag rt) (flags, snd (request rt FETCH_DEALS_QUERY s)) pre)))))
   \<and> (flags x = Some True
        \<or> (\<forall>ds. fst (request rt FETCH_DEALS_QUERY s) = Data (Metaobjects ds) \<longrightarrow> x \<notin> deal_id ` set ds) \<longrightarrow>
      fst (fetchAndProcessDeals_flag rt (flags, s)) x = flags x)"
proof (intro conjI impI)
  let ?s' = "snd (request rt FETCH_DEALS_QUERY s)"
  assume a: "fst (request rt FETCH_DEALS_QUERY s) = Data (Metaobjects (pre @ d # post))
      \<and> deal_id d \<notin> deal_id ` set (pre @ post) \<and> deal_id d \<in> trackedDeals"
  obtain T1 s1 where st1: "foldl (processDeal rt) (trackedDeals, ?s') pre = (T1, s1)"
    by (cases "foldl (processDeal rt) (trackedDeals, ?s') pre")
  have npre: "deal_id d \<notin> deal_id ` set pre" and npost: "deal_id d \<notin> deal_id ` set post"
    using a by auto
  have t1: "deal_id d \<in> T1"
    using foldl_processDeal_others[OF npre, of rt trackedDeals ?s'] a by (simp add: st1)
  obtain c s2 where adj: "adjustProductPrices rt increment_index (fieldsObject (deal_fields d) ''product'') s1 = (c, s2)"
    by (cases "adjustProductPrices rt increment_index (fieldsObject (deal_fields d) ''product'') s1")
  have step: "processDeal rt (T1, s1) d = (if c then T1 - {deal_id d} else T1, s2)"
    using t1 by (simp add: processDeal_tracked(1) adjustDeal_def adj)
  have "fetchAndProcessDeals rt (trackedDeals, s)
          = foldl (processDeal rt) (trackedDeals, ?s') (pre @ d # post)"
    using a by (cases rule: fetch_cases[of rt s trackedDeals]) simp_all
  also have "\<dots> = foldl (processDeal rt) (if c then T1 - {deal_id d} else T1, s2) post"
    by (simp add: st1 step)
  finally have "(deal_id d \<in> fst (fetchAndProcessDeals rt (trackedDeals, s)))
                  = (deal_id d \<in> (if c then T1 - {deal_id d} else T1))"
    using foldl_processDeal_others[OF npost, of rt "if c then T1 - {deal_id d} else T1" s2] by simp
  then show "(deal_id d \<in> fst (fetchAndProcessDeals rt (trackedDeals, s)))
      = (\<not> fst (adjustProductPrices rt increment_index (fieldsObject (deal_fields d) ''product'')
               (snd (foldl (processDeal rt) (trackedDeals, ?s') pre))))"
    using t1 by (simp add: st1 adj)
next
  assume a: "\<forall>ds. fst (request rt FETCH_DEALS_QUERY s) = Data (Metaobjects ds) \<longrightarrow> x \<notin> deal_id ` set ds"
  show "(x \<in> fst (fetchAndProcessDeals rt (trackedDeals, s))) = (x \<in> trackedDeals)"
  proof (cases rule: fetch_cases[of rt s trackedDeals])
    case (scanned ds)
    then have "x \<notin> deal_id ` set ds" using a by blast
    then show ?thesis by (simp add: scanned(2) foldl_processDeal_others)
  next
    case failed
    then show ?thesis by simp
  qed
next
  let ?s' = "snd (request rt FETCH_DEALS_QUERY s)"
  assume a: "fst (request rt FETCH_DEALS_QUERY s) = Data (Metaobjects (pre @ d # post))
      \<and> deal_id d \<notin> deal_id ` set (pre @ post) \<and> flags (deal_id d) = Some False"
  obtain F1 s1 where st1: "foldl (processDeal_flag rt) (flags, ?s') pre = (F1, s1)"
    by (cases "foldl (processDeal_flag rt) (flags, ?s') pre")
  have npre: "deal_id d \<notin> deal_id ` set pre" and npost: "deal_id d \<notin> deal_id ` set post"
    using a by auto
  have f1: "F1 (deal_id d) = Some False"
    using foldl_flag_others[OF npre, of rt flags ?s'] a by (simp add: st1)
  obtain F2 s2 where step: "processDeal_flag rt (F1, s1) d = (F2, s2)"
    by (cases "processDeal_flag rt (F1, s1) d")
  have f2: "F2 (deal_id d)
              = Some (fst (adjustProductPrices rt priceIncrement (fieldsObject (deal_fields d) ''product'') s1))"
    using processDeal_flag_active[of F1 d rt s1] f1 by (simp add: step)
  have "fetchAndProcessDeals_flag rt (flags, s)
          = foldl (processDeal_flag rt) (flags, ?s') (pre @ d # post)"
    using a by (cases rule: fetch_flag_cases[of rt s flags]) simp_all
  also have "\<dots> = foldl (processDeal_flag rt) (F2, s2) post"
    by (simp add: st1 step)
  finally have "fst (fetchAndProcessDeals_flag rt (flags, s)) (deal_id d) = F2 (deal_id d)"
    using foldl_flag_others[OF npost, of rt F2 s2] by simp
  then show "fst (fetchAndProcessDeals_flag rt (flags, s)) (deal_id d)
      = Some (fst (adjustProductPrices rt priceIncrement (fieldsObject (deal_fields d) ''product'')
               (snd (foldl (processDeal_flag rt) (flags, ?s') pre))))"
    by (simp add: f2 st1)
next
  assume a: "flags x = Some True
        \<or> (\<forall>ds. fst (request rt FETCH_DEALS_QUERY s) = Data (Metaobjects ds) \<longrightarrow> x \<notin> deal_id ` set ds)"
  show "fst (fetchAndProcessDeals_flag rt (flags, s)) x = flags x"
  proof (cases "flags x = Some True")
    case True
    then show ?thesis by (simp add: cycle_flag_complete)
  next
    case False
    with a have n: "\<forall>ds. fst (request rt FETCH_DEALS_QUERY s) = Data (Metaobjects ds) \<longrightarrow> x \<notin> deal_id ` set ds"
      by blast
    show ?thesis
    proof (cases rule: fetch_flag_cases[of rt s flags])
      case (scanned ds)
      then have "x \<notin> deal_id ` set ds" using n by blast
      then show ?thesis by (simp add: scanned(2) foldl_flag_others)
    next
      case failed
      then show ?thesis by simp
    qed
  qed
qed



section \<open>Runs of the engine against the store\<close>

lemma fetch_dealOne:
  "fst (request storeRuntime FETCH_DEALS_QUERY (fresh (catalogStore vs))) = Data (Metaobjects [dealOne])"
  by (simp add: request_def storeRuntime_def fresh_def catalogStore_def)

lemma dealOne_fields:
  "fieldsObject (deal_fields dealOne) ''wtf_pricing'' = Some ''true''"
  "fieldsObject (deal_fields dealOne) ''wtf_pricing_started'' \<noteq> Some ''true''"
  "fieldsObject (deal_fields dealOne) ''product'' = Some ''product-1''"
  "deal_id dealOne = ''deal-1''"
  by (simp_all add: fieldsObject_def dealOne_def)

theorem tracked_deal_not_restarted_witness:
  "deal_id dealOne \<in> {''deal-1''}
   \<and> startDeal storeRuntime dealOne
        ({''deal-1''}, fresh (catalogStore [\<lparr>variant_id = ''v1'', price = ''80.00'', compareAtPrice = ''100.00''\<rparr>]))
      = ({''deal-1''}, fresh (catalogStore [\<lparr>variant_id = ''v1'', price = ''80.00'', compareAtPrice = ''100.00''\<rparr>]))
   \<and> startMarkers ''deal-1'' (snd (fetchAndProcessDeals storeRuntime
        ({''deal-1''}, fresh (catalogStore [\<lparr>variant_id = ''v1'', price = ''80.00'', compareAtPrice = ''100.00''\<rparr>]))))
      = 0
   \<and> startDeal_flag storeRuntime dealOne
        ([''deal-1'' \<mapsto> True], fresh (catalogStore [\<lparr>variant_id = ''v1'', price = ''80.00'', compareAtPrice = ''100.00''\<rparr>]))
      = ([''deal-1'' \<mapsto> True], fresh (catalogStore [\<lparr>variant_id = ''v1'', price = ''80.00'', compareAtPrice = ''100.00''\<rparr>]))
   \<and> fst (main_flag storeRuntime 2
        ([''deal-1'' \<mapsto> True], fresh (catalogStore [\<lparr>variant_id = ''v1'', price = ''80.00'', compareAtPrice = ''100.00''\<rparr>])))
        ''deal-1'' = Some True"
proof -
  let ?s = "fresh (catalogStore [\<lparr>variant_id = ''v1'', price = ''80.00'', compareAtPrice = ''100.00''\<rparr>])"
  let ?F = "[''deal-1'' \<mapsto> True]"
  note T = tracked_deal_not_restarted[of dealOne "{''deal-1''}" storeRuntime ?s "''deal-1''" ?F 2]
  have h1: "deal_id dealOne \<in> {''deal-1''}" by (simp add: dealOne_fields)
  have h2: "''deal-1'' \<in> {''deal-1''}
       \<and> (\<forall>ds. fst (request storeRuntime FETCH_DEALS_QUERY ?s) = Data (Metaobjects ds) \<longrightarrow> distinct (map deal_id ds))"
    by (simp add: fetch_dealOne)
  have h3: "deal_id dealOne \<in> dom ?F" by (simp add: dealOne_fields)
  have h5: "?F ''deal-1'' = Some True" by simp
  have m: "startMarkers ''deal-1'' ?s = 0" by (simp add: startMarkers_def fresh_def)
  note c1 = T[THEN conjunct1, THEN mp, OF h1]
  note c2 = T[THEN conjunct2, THEN conjunct1, THEN mp, OF h2]
  note c3 = T[THEN conjunct2, THEN conjunct2, THEN conjunct1, THEN mp, OF h3]
  note c5 = T[THEN conjunct2, THEN conjunct2, THEN conjunct2, THEN conjunct2, THEN mp, OF h5]
  show ?thesis using h1 c1 c2 c3 c5 unfolding m by (intro conjI)
qed

text \<open>
  Claim C3 as stated fails on \<open>index.js\<close>. The store refuses the start-marker mutation,
  so the fields of the deal stay as they are. The first cycle starts the deal, which is
  tracked at its end; the second cycle completes it and removes it from the tracked
  deals; the third cycle fetches it again, with unchanged fields, and starts it again:
  the start-marker mutation has then been issued twice.
\<close>

theorem start_once_counterexample:
  "''deal-1'' \<in> fst (main storeRuntime 1 ({}, fresh ((catalogStore
        [\<lparr>variant_id = ''v1'', price = ''80.00'', compareAtPrice = ''100.00''\<rparr>])\<lparr>refuseMarker := True\<rparr>)))
   \<and> startMarkers ''deal-1'' (snd (main storeRuntime 1 ({}, fresh ((catalogStore
        [\<lparr>variant_id = ''v1'', price = ''80.00'', compareAtPrice = ''100.00''\<rparr>])\<lparr>refuseMarker := True\<rparr>))))
      = 1
   \<and> ''deal-1'' \<notin> fst (main storeRuntime 2 ({}, fresh ((catalogStore
        [\<lparr>variant_id = ''v1'', price = ''80.00'', compareAtPrice = ''100.00''\<rparr>])\<lparr>refuseMarker := True\<rparr>)))
   \<and> storeDeals (world (snd (main storeRuntime 2 ({}, fresh ((catalogStore
        [\<lparr>variant_id = ''v1'', price = ''80.00'', compareAtPrice = ''100.00''\<rparr>])\<lparr>refuseMarker := True\<rparr>)))))
      = [dealOne]
   \<and> startMarkers ''deal-1'' (snd (main storeRuntime 3 ({}, fresh ((catalogStore
        [\<lparr>variant_id = ''v1'', price = ''80.00'', compareAtPrice = ''100.00''\<rparr>])\<lparr>refuseMarker := True\<rparr>))))
      = 2"
proof -
  let ?s = "fresh ((catalogStore
        [\<lparr>variant_id = ''v1'', price = ''80.00'', compareAtPrice = ''100.00''\<rparr>])\<lparr>refuseMarker := True\<rparr>)"
  let ?w0 = "(catalogStore
        [\<lparr>variant_id = ''v1'', price = ''80.00'', compareAtPrice = ''100.00''\<rparr>])\<lparr>refuseMarker := True\<rparr>"
  let ?w1 = "(catalogStore
        [\<lparr>variant_id = ''v1'', price = ''90.00'', compareAtPrice = ''100.00''\<rparr>])\<lparr>refuseMarker := True\<rparr>"
  let ?w2 = "(catalogStore
        [\<lparr>variant_id = ''v1'', price = ''100.00'', compareAtPrice = ''100.00''\<rparr>])\<lparr>refuseMarker := True\<rparr>"
  let ?r1 = "[FETCH_DEALS_QUERY, UPDATE_DEAL_MUTATION ''deal-1'', FETCH_PRODUCT_QUERY (Some ''product-1''),
              UPDATE_PRODUCT_VARIANT_MUTATION ''v1'' (Fixed ''90.00'')]"
  let ?r2 = "[FETCH_DEALS_QUERY, UPDATE_DEAL_MUTATION ''deal-1'', FETCH_PRODUCT_QUERY (Some ''product-1''),
              UPDATE_PRODUCT_VARIANT_MUTATION ''v1'' (Fixed ''90.00''),
              FETCH_DEALS_QUERY, FETCH_PRODUCT_QUERY (Some ''product-1''),
              UPDATE_PRODUCT_VARIANT_MUTATION ''v1'' (Fixed ''100.00'')]"
  let ?r3 = "[FETCH_DEALS_QUERY, UPDATE_DEAL_MUTATION ''deal-1'', FETCH_PRODUCT_QUERY (Some ''product-1''),
              UPDATE_PRODUCT_VARIANT_MUTATION ''v1'' (Fixed ''90.00''),
              FETCH_DEALS_QUERY, FETCH_PRODUCT_QUERY (Some ''product-1''),
              UPDATE_PRODUCT_VARIANT_MUTATION ''v1'' (Fixed ''100.00''),
              FETCH_DEALS_QUERY, UPDATE_DEAL_MUTATION ''deal-1'', FETCH_PRODUCT_QUERY (Some ''product-1'')]"
  have c1: "fetchAndProcessDeals storeRuntime ({}, ?s) = ({''deal-1''}, \<lparr>world = ?w1, sent = ?r1\<rparr>)"
    by (simp add: eval)
  have z1: "sleeping storeRuntime \<lparr>world = ?w1, sent = ?r1\<rparr>
              = \<lparr>world = ?w1\<lparr>storeTime := 1730500030000\<rparr>, sent = ?r1\<rparr>"
    by (simp add: eval)
  have c2: "fetchAndProcessDeals storeRuntime
              ({''deal-1''}, \<lparr>world = ?w1\<lparr>storeTime := 1730500030000\<rparr>, sent = ?r1\<rparr>)
              = ({}, \<lparr>world = ?w2\<lparr>storeTime := 1730500030000\<rparr>, sent = ?r2\<rparr>)"
    by (simp add: eval)
  have z2: "sleeping storeRuntime \<lparr>world = ?w2\<lparr>storeTime := 1730500030000\<rparr>, sent = ?r2\<rparr>
              = \<lparr>world = ?w2\<lparr>storeTime := 1730500060000\<rparr>, sent = ?r2\<rparr>"
    by (simp add: eval)
  have c3: "fetchAndProcessDeals storeRuntime
              ({}, \<lparr>world = ?w2\<lparr>storeTime := 1730500060000\<rparr>, sent = ?r2\<rparr>)
              = ({}, \<lparr>world = ?w2\<lparr>storeTime := 1730500060000\<rparr>, sent = ?r3\<rparr>)"
    by (simp add: eval)
  have m1: "main storeRuntime 1 ({}, ?s)
              = ({''deal-1''}, \<lparr>world = ?w1\<lparr>storeTime := 1730500030000\<rparr>, sent = ?r1\<rparr>)"
    by (simp add: eval_nat_numeral c1 z1)
  have m2: "main storeRuntime 2 ({}, ?s)
              = ({}, \<lparr>world = ?w2\<lparr>storeTime := 1730500060000\<rparr>, sent = ?r2\<rparr>)"
    by (simp add: eval_nat_numeral c1 z1 c2 z2)
  have m3: "main storeRuntime 3 ({}, ?s)
              = ({}, sleeping storeRuntime \<lparr>world = ?w2\<lparr>storeTime := 1730500060000\<rparr>, sent = ?r3\<rparr>)"
    by (simp add: eval_nat_numeral c1 z1 c2 z2 c3)
  have a: "''deal-1'' \<in> fst (main storeRuntime 1 ({}, ?s))" unfolding m1 by simp
  have b: "startMarkers ''deal-1'' (snd (main storeRuntime 1 ({}, ?s))) = 1"
    unfolding m1 by (simp add: startMarkers_def)
  have c: "''deal-1'' \<notin> fst (main storeRuntime 2 ({}, ?s))" unfolding m2 by simp
  have d: "storeDeals (world (snd (main storeRuntime 2 ({}, ?s)))) = [dealOne]"
    unfolding m2 by (simp add: catalogStore_def)
  have e: "startMarkers ''deal-1'' (snd (main storeRuntime 3 ({}, ?s))) = 2"
    unfolding m3 by (simp add: startMarkers_def sleeping_def)
  show ?thesis using a b c d e by (intro conjI)
qed

theorem completion_on_full_pass_witness:
  "fst (request storeRuntime FETCH_DEALS_QUERY
          (fresh (catalogStore [\<lparr>variant_id = ''v1'', price = ''80.00'', compareAtPrice = ''100.00''\<rparr>])))
     = Data (Metaobjects ([] @ dealOne # []))
   \<and> deal_id dealOne \<in> fst (fetchAndProcessDeals storeRuntime
         ({''deal-1''}, fresh (catalogStore [\<lparr>variant_id = ''v1'', price = ''80.00'', compareAtPrice = ''100.00''\<rparr>])))
   \<and> deal_id dealOne \<notin> fst (fetchAndProcessDeals storeRuntime
         ({''deal-1''}, fresh (catalogStore [\<lparr>variant_id = ''v1'', price = ''100.00'', compareAtPrice = ''100.00''\<rparr>])))
   \<and> ''deal-2'' \<in> fst (fetchAndProcessDeals storeRuntime
         ({''deal-2''}, fresh (catalogStore [\<lparr>variant_id = ''v1'', price = ''100.00'', compareAtPrice = ''100.00''\<rparr>])))
   \<and> fst (fetchAndProcessDeals_flag storeRuntime
         ([''deal-1'' \<mapsto> False], fresh (catalogStore [\<lparr>variant_id = ''v1'', price = ''80.00'', compareAtPrice = ''100.00''\<rparr>])))
       (deal_id dealOne) = Some False
   \<and> fst (fetchAndProcessDeals_flag storeRuntime
         ([''deal-1'' \<mapsto> True], fresh (catalogStore [\<lparr>variant_id = ''v1'', price = ''80.00'', compareAtPrice = ''100.00''\<rparr>])))
       ''deal-1'' = Some True"
proof -
  let ?below = "fresh (catalogStore [\<lparr>variant_id = ''v1'', price = ''80.00'', compareAtPrice = ''100.00''\<rparr>])"
  let ?done = "fresh (catalogStore [\<lparr>variant_id = ''v1'', price = ''100.00'', compareAtPrice = ''100.00''\<rparr>])"
  have f1: "fst (request storeRuntime FETCH_DEALS_QUERY ?below) = Data (Metaobjects ([] @ dealOne # []))"
    and f2: "fst (request storeRuntime FETCH_DEALS_QUERY ?done) = Data (Metaobjects ([] @ dealOne # []))"
    by (simp_all add: fetch_dealOne)
  have alone: "deal_id dealOne \<notin> deal_id ` set ([] @ [])" by simp
  have t: "deal_id dealOne \<in> {''deal-1''}" by (simp add: dealOne_fields)
  have p1: "\<not> fst (adjustProductPrices storeRuntime increment_index (fieldsObject (deal_fields dealOne) ''product'')
               (snd (foldl (processDeal storeRuntime) ({''deal-1''}, snd (request storeRuntime FETCH_DEALS_QUERY ?below)) [])))"
    by (simp add: eval)
  have p2: "fst (adjustProductPrices storeRuntime increment_index (fieldsObject (deal_fields dealOne) ''product'')
               (snd (foldl (processDeal storeRuntime) ({''deal-1''}, snd (request storeRuntime FETCH_DEALS_QUERY ?done)) [])))"
    by (simp add: eval)
  have p3: "\<not> fst (adjustProductPrices storeRuntime priceIncrement (fieldsObject (deal_fields dealOne) ''product'')
               (snd (foldl (processDeal_flag storeRuntime) ([''deal-1'' \<mapsto> False], snd (request storeRuntime FETCH_DEALS_QUERY ?below)) [])))"
    by (simp add: eval)
  have u: "\<forall>ds. fst (request storeRuntime FETCH_DEALS_QUERY ?done) = Data (Metaobjects ds) \<longrightarrow> ''deal-2'' \<notin> deal_id ` set ds"
    by (simp add: fetch_dealOne dealOne_fields)
  have fl: "[''deal-1'' \<mapsto> False] (deal_id dealOne) = Some False" by (simp add: dealOne_fields)
  note A = completion_on_full_pass[of storeRuntime ?below "[]" dealOne "[]" "{''deal-1''}" "''deal-1''"
      "[''deal-1'' \<mapsto> False]"]
  note B = completion_on_full_pass[of storeRuntime ?done "[]" dealOne "[]" "{''deal-1''}" "''deal-2''"
      "[''deal-1'' \<mapsto> True]"]
  note C = completion_on_full_pass[of storeRuntime ?done "[]" dealOne "[]" "{''deal-2''}" "''deal-2''"
      "[''deal-1'' \<mapsto> True]"]
  note D = completion_on_full_pass[of storeRuntime ?below "[]" dealOne "[]" "{''deal-1''}" "''deal-1''"
      "[''deal-1'' \<mapsto> True]"]
  have c1: "deal_id dealOne \<in> fst (fetchAndProcessDeals storeRuntime ({''deal-1''}, ?below))"
    using A[THEN conjunct1, THEN mp, OF conjI[OF f1 conjI[OF alone t]]] p1 by blast
  have c2: "deal_id dealOne \<notin> fst (fetchAndProcessDeals storeRuntime ({''deal-1''}, ?done))"
    using B[THEN conjunct1, THEN mp, OF conjI[OF f2 conjI[OF alone t]]] p2 by blast
  have c3: "''deal-2'' \<in> fst (fetchAndProcessDeals storeRuntime ({''deal-2''}, ?done))"
    using C[THEN conjunct2, THEN conjunct1, THEN mp, OF u] by simp
  have c4: "fst (fetchAndProcessDeals_flag storeRuntime ([''deal-1'' \<mapsto> False], ?below)) (deal_id dealOne) = Some False"
    using A[THEN conjunct2, THEN conjunct2, THEN conjunct1, THEN mp, OF conjI[OF f1 conjI[OF alone fl]]] p3
    by simp
  have c5: "fst (fetchAndProcessDeals_flag storeRuntime ([''deal-1'' \<mapsto> True], ?below)) ''deal-1'' = Some True"
    using D[THEN conjunct2, THEN conjunct2, THEN conjunct2, THEN mp, OF disjI1] by simp
  show ?thesis using f1 c1 c2 c3 c4 c5 by (intro conjI)
qed

text \<open>
  Claim C4 as stated fails on the source file that keeps completion flags. The deal is
  in recovery and its only variant is at its compare-at price: the Orchestrator pass of
  the cycle reports completion, and after the cycle the entry of the deal is still in
  the Tracker, with the flag \<open>true\<close>.
\<close>

theorem entry_removed_counterexample:
  "fst (adjustProductPrices storeRuntime priceIncrement (Some ''product-1'')
          (snd (request storeRuntime FETCH_DEALS_QUERY
             (fresh (catalogStore [\<lparr>variant_id = ''v1'', price = ''100.00'', compareAtPrice = ''100.00''\<rparr>])))))
   \<and> fst (fetchAndProcessDeals_flag storeRuntime
         ([''deal-1'' \<mapsto> False],
          fresh (catalogStore [\<lparr>variant_id = ''v1'', price = ''100.00'', compareAtPrice = ''100.00''\<rparr>])))
       ''deal-1'' = Some True"
proof -
  let ?done = "fresh (catalogStore [\<lparr>variant_id = ''v1'', price = ''100.00'', compareAtPrice = ''100.00''\<rparr>])"
  have a: "fst (adjustProductPrices storeRuntime priceIncrement (Some ''product-1'')
          (snd (request storeRuntime FETCH_DEALS_QUERY ?done)))"
    by (simp add: eval)
  have b: "fst (fetchAndProcessDeals_flag storeRuntime ([''deal-1'' \<mapsto> False], ?done)) ''deal-1'' = Some True"
    by (simp add: eval)
  show ?thesis using a b by (intro conjI)
qed



text \<open>
  Claim C9. The store holds one eligible deal whose product has one variant at \<open>80.00\<close>
  with the compare-at price \<open>100.00\<close>, and every request succeeds. With the increment
  \<open>9.99\<close>, three iterations of \<open>main\<close> issue the prices \<open>89.99\<close>, \<open>99.98\<close> and \<open>100.00\<close>, one
  in each cycle; the deal is in recovery after the first and the second cycle and complete
  after the third. The Stepper, on the variant as each cycle finds it, returns \<open>false\<close>,
  \<open>false\<close> and \<open>true\<close>.
\<close>

theorem three_cycles_to_target:
  "sent (snd (main_flag storeRuntime 3 (Map.empty,
      fresh (catalogStore [\<lparr>variant_id = ''v1'', price = ''80.00'', compareAtPrice = ''100.00''\<rparr>]))))
     = [FETCH_DEALS_QUERY, FETCH_PRODUCT_QUERY (Some ''product-1''),
        UPDATE_PRODUCT_VARIANT_MUTATION ''v1'' (Fixed ''89.99''),
        FETCH_DEALS_QUERY, FETCH_PRODUCT_QUERY (Some ''product-1''),
        UPDATE_PRODUCT_VARIANT_MUTATION ''v1'' (Fixed ''99.98''),
        FETCH_DEALS_QUERY, FETCH_PRODUCT_QUERY (Some ''product-1''),
        UPDATE_PRODUCT_VARIANT_MUTATION ''v1'' (Fixed ''100.00'')]
   \<and> fst (main_flag storeRuntime 1 (Map.empty,
        fresh (catalogStore [\<lparr>variant_id = ''v1'', price = ''80.00'', compareAtPrice = ''100.00''\<rparr>])))
       ''deal-1'' = Some False
   \<and> fst (main_flag storeRuntime 2 (Map.empty,
        fresh (catalogStore [\<lparr>variant_id = ''v1'', price = ''80.00'', compareAtPrice = ''100.00''\<rparr>])))
       ''deal-1'' = Some False
   \<and> fst (main_flag storeRuntime 3 (Map.empty,
        fresh (catalogStore [\<lparr>variant_id = ''v1'', price = ''80.00'', compareAtPrice = ''100.00''\<rparr>])))
       ''deal-1'' = Some True
   \<and> storeProducts (world (snd (main_flag storeRuntime 3 (Map.empty,
        fresh (catalogStore [\<lparr>variant_id = ''v1'', price = ''80.00'', compareAtPrice = ''100.00''\<rparr>])))))
      = [(''product-1'', \<lparr>title = ''Mug'', variants =
            [\<lparr>variant_id = ''v1'', price = ''100.00'', compareAtPrice = ''100.00''\<rparr>]\<rparr>)]
   \<and> \<not> fst (incrementVariantPrice storeRuntime priceIncrement
        \<lparr>variant_id = ''v1'', price = ''80.00'', compareAtPrice = ''100.00''\<rparr> (fresh emptyStore))
   \<and> \<not> fst (incrementVariantPrice storeRuntime priceIncrement
        \<lparr>variant_id = ''v1'', price = ''89.99'', compareAtPrice = ''100.00''\<rparr> (fresh emptyStore))
   \<and> fst (incrementVariantPrice storeRuntime priceIncrement
        \<lparr>variant_id = ''v1'', price = ''99.98'', compareAtPrice = ''100.00''\<rparr> (fresh emptyStore))"
proof -
  let ?s = "fresh (catalogStore [\<lparr>variant_id = ''v1'', price = ''80.00'', compareAtPrice = ''100.00''\<rparr>])"
  let ?w1 = "catalogStore [\<lparr>variant_id = ''v1'', price = ''89.99'', compareAtPrice = ''100.00''\<rparr>]"
  let ?w2 = "catalogStore [\<lparr>variant_id = ''v1'', price = ''99.98'', compareAtPrice = ''100.00''\<rparr>]"
  let ?w3 = "catalogStore [\<lparr>variant_id = ''v1'', price = ''100.00'', compareAtPrice = ''100.00''\<rparr>]"
  let ?r1 = "[FETCH_DEALS_QUERY, FETCH_PRODUCT_QUERY (Some ''product-1''),
              UPDATE_PRODUCT_VARIANT_MUTATION ''v1'' (Fixed ''89.99'')]"
  let ?r2 = "[FETCH_DEALS_QUERY, FETCH_PRODUCT_QUERY (Some ''product-1''),
              UPDATE_PRODUCT_VARIANT_MUTATION ''v1'' (Fixed ''89.99''),
              FETCH_DEALS_QUERY, FETCH_PRODUCT_QUERY (Some ''product-1''),
              UPDATE_PRODUCT_VARIANT_MUTATION ''v1'' (Fixed ''99.98'')]"
  let ?r3 = "[FETCH_DEALS_QUERY, FETCH_PRODUCT_QUERY (Some ''product-1''),
              UPDATE_PRODUCT_VARIANT_MUTATION ''v1'' (Fixed ''89.99''),
              FETCH_DEALS_QUERY, FETCH_PRODUCT_QUERY (Some ''product-1''),
              UPDATE_PRODUCT_VARIANT_MUTATION ''v1'' (Fixed ''99.98''),
              FETCH_DEALS_QUERY, FETCH_PRODUCT_QUERY (Some ''product-1''),
              UPDATE_PRODUCT_VARIANT_MUTATION ''v1'' (Fixed ''100.00'')]"
  have c1: "fetchAndProcessDeals_flag storeRuntime (Map.empty, ?s)
              = ([''deal-1'' \<mapsto> False], \<lparr>world = ?w1, sent = ?r1\<rparr>)"
    by (simp add: eval)
  have z1: "sleeping storeRuntime \<lparr>world = ?w1, sent = ?r1\<rparr>
              = \<lparr>world = ?w1\<lparr>storeTime := 1730500030000\<rparr>, sent = ?r1\<rparr>"
    by (simp add: eval)
  have c2: "fetchAndProcessDeals_flag storeRuntime
              ([''deal-1'' \<mapsto> False], \<lparr>world = ?w1\<lparr>storeTime := 1730500030000\<rparr>, sent = ?r1\<rparr>)
              = ([''deal-1'' \<mapsto> False], \<lparr>world = ?w2\<lparr>storeTime := 1730500030000\<rparr>, sent = ?r2\<rparr>)"
    by (simp add: eval)
  have z2: "sleeping storeRuntime \<lparr>world = ?w2\<lparr>storeTime := 1730500030000\<rparr>, sent = ?r2\<rparr>
              = \<lparr>world = ?w2\<lparr>storeTime := 1730500060000\<rparr>, sent = ?r2\<rparr>"
    by (simp add: eval)
  have c3: "fetchAndProcessDeals_flag storeRuntime
              ([''deal-1'' \<mapsto> False], \<lparr>world = ?w2\<lparr>storeTime := 1730500060000\<rparr>, sent = ?r2\<rparr>)
              = ([''deal-1'' \<mapsto> True], \<lparr>world = ?w3\<lparr>storeTime := 1730500060000\<rparr>, sent = ?r3\<rparr>)"
    by (simp add: eval)
  have m1: "main_flag storeRuntime 1 (Map.empty, ?s)
              = ([''deal-1'' \<mapsto> False], \<lparr>world = ?w1\<lparr>storeTime := 1730500030000\<rparr>, sent = ?r1\<rparr>)"
    by (simp add: eval_nat_numeral c1 z1)
  have m2: "main_flag storeRuntime 2 (Map.empty, ?s)
              = ([''deal-1'' \<mapsto> False], \<lparr>world = ?w2\<lparr>storeTime := 1730500060000\<rparr>, sent = ?r2\<rparr>)"
    by (simp add: eval_nat_numeral c1 z1 c2 z2)
  have m3: "main_flag storeRuntime 3 (Map.empty, ?s)
              = ([''deal-1'' \<mapsto> True],
                 sleeping storeRuntime \<lparr>world = ?w3\<lparr>storeTime := 1730500060000\<rparr>, sent = ?r3\<rparr>)"
    by (simp add: eval_nat_numeral c1 z1 c2 z2 c3)
  have a: "sent (snd (main_flag storeRuntime 3 (Map.empty, ?s))) = ?r3"
    unfolding m3 by (simp add: sleeping_def)
  have b1: "fst (main_flag storeRuntime 1 (Map.empty, ?s)) ''deal-1'' = Some False"
    unfolding m1 by simp
  have b2: "fst (main_flag storeRuntime 2 (Map.empty, ?s)) ''deal-1'' = Some False"
    unfolding m2 by simp
  have b3: "fst (main_flag storeRuntime 3 (Map.empty, ?s)) ''deal-1'' = Some True"
    unfolding m3 by simp
  have p: "storeProducts (world (snd (main_flag storeRuntime 3 (Map.empty, ?s))))
      = [(''product-1'', \<lparr>title = ''Mug'', variants =
            [\<lparr>variant_id = ''v1'', price = ''100.00'', compareAtPrice = ''100.00''\<rparr>]\<rparr>)]"
    unfolding m3 by (simp add: sleeping_def storeRuntime_def catalogStore_def)
  have s1: "\<not> fst (incrementVariantPrice storeRuntime priceIncrement
        \<lparr>variant_id = ''v1'', price = ''80.00'', compareAtPrice = ''100.00''\<rparr> (fresh emptyStore))"
    by (simp add: eval)
  have s2: "\<not> fst (incrementVariantPrice storeRuntime priceIncrement
        \<lparr>variant_id = ''v1'', price = ''89.99'', compareAtPrice = ''100.00''\<rparr> (fresh emptyStore))"
    by (simp add: eval)
  have s3: "fst (incrementVariantPrice storeRuntime priceIncrement
        \<lparr>variant_id = ''v1'', price = ''99.98'', compareAtPrice = ''100.00''\<rparr> (fresh emptyStore))"
    by (simp add: eval)
  show ?thesis using a b1 b2 b3 p s1 s2 s3 by simp
qed

section \<open>Rounding to the nearest double\<close>

lemma roundTiesToEven_of_int: "roundTiesToEven (of_int n) = n"
  by (simp add: roundTiesToEven_def)

lemma roundTiesToEven_cases:
  "roundTiesToEven q = \<lfloor>q\<rfloor> \<and> q - of_int \<lfloor>q\<rfloor> \<le> 1 / 2
   \<or> roundTiesToEven q = \<lfloor>q\<rfloor> + 1 \<and> 1 / 2 \<le> q - of_int \<lfloor>q\<rfloor>"
  by (auto simp: roundTiesToEven_def Let_def)

lemma roundTiesToEven_error: "\<bar>of_int (roundTiesToEven q) - q\<bar> \<le> 1 / 2"
proof -
  have "of_int \<lfloor>q\<rfloor> \<le> q" "q < of_int \<lfloor>q\<rfloor> + 1" by linarith+
  then show ?thesis using roundTiesToEven_cases[of q] by auto
qed

lemma roundTiesToEven_mono:
  assumes "q \<le> q'"
  shows "roundTiesToEven q \<le> roundTiesToEven q'"
proof (cases "\<lfloor>q\<rfloor> = \<lfloor>q'\<rfloor>")
  case True
  then show ?thesis using assms by (auto simp: roundTiesToEven_def Let_def)
next
  case False
  then have "\<lfloor>q\<rfloor> < \<lfloor>q'\<rfloor>" using floor_mono[OF assms] by linarith
  moreover have "roundTiesToEven q \<le> \<lfloor>q\<rfloor> + 1" using roundTiesToEven_cases[of q] by auto
  moreover have "\<lfloor>q'\<rfloor> \<le> roundTiesToEven q'" using roundTiesToEven_cases[of q'] by auto
  ultimately show ?thesis by linarith
qed

lemma ilog2_mono:
  assumes "0 < x" "x \<le> y"
  shows "ilog2 x \<le> ilog2 y"
proof -
  have y: "0 < y" using assms by linarith
  have "2 powi ilog2 x \<le> x" using ilog2_bounds[OF assms(1)] by simp
  also have "x \<le> y" by fact
  also have "y < 2 powi (ilog2 y + 1)" using ilog2_bounds[OF y] by simp
  finally have "ilog2 x < ilog2 y + 1" by (simp only: powi_less_iff)
  then show ?thesis by simp
qed

lemma ilog2_less:
  assumes "0 < a" "a < 2 powi e"
  shows "ilog2 a < e"
proof -
  have "2 powi ilog2 a \<le> a" using ilog2_bounds[OF assms(1)] by simp
  then have "(2::rat) powi ilog2 a < 2 powi e" using assms(2) by linarith
  then show ?thesis by (simp only: powi_less_iff)
qed

lemma powi_52: "(2::rat) powi e = of_int (2 ^ 52) * 2 powi (e - 52)"
proof -
  have "(2::rat) powi e = 2 powi ((e - 52) + 52)" by simp
  also have "\<dots> = 2 powi (e - 52) * 2 powi 52" by (subst power_int_add) simp_all
  finally show ?thesis by simp
qed

lemma powi_53: "(2::rat) powi (e + 1) = of_int (2 ^ 53) * 2 powi (e - 52)"
proof -
  have "e + 1 = (e - 52) + 53" by simp
  then have "(2::rat) powi (e + 1) = 2 powi ((e - 52) + 53)" by (simp only:)
  also have "\<dots> = 2 powi (e - 52) * 2 powi 53" by (subst power_int_add) simp_all
  finally show ?thesis by simp
qed

lemma ulp_pos: "0 < ulp a"
  by (simp add: ulp_def)

lemma round_pos_nonneg: "0 \<le> a \<Longrightarrow> 0 \<le> round_pos a"
proof -
  assume "0 \<le> a"
  then have "0 \<le> a / ulp a" using ulp_pos[of a] by simp
  then have "roundTiesToEven 0 \<le> roundTiesToEven (a / ulp a)" by (rule roundTiesToEven_mono)
  then have "0 \<le> roundTiesToEven (a / ulp a)" using roundTiesToEven_of_int[of 0] by simp
  then show ?thesis using ulp_pos[of a] by (simp add: round_pos_def)
qed

lemma round_pos_error: "\<bar>round_pos a - a\<bar> \<le> ulp a / 2"
proof -
  have u: "0 < ulp a" by (rule ulp_pos)
  have "round_pos a - a = (of_int (roundTiesToEven (a / ulp a)) - a / ulp a) * ulp a"
    using u by (simp add: round_pos_def field_simps)
  then have "\<bar>round_pos a - a\<bar> = \<bar>of_int (roundTiesToEven (a / ulp a)) - a / ulp a\<bar> * ulp a"
    using u by (simp add: abs_mult)
  also have "\<dots> \<le> (1 / 2) * ulp a"
    using roundTiesToEven_error[of "a / ulp a"] u by (auto intro: mult_right_mono)
  finally show ?thesis by simp
qed

text \<open>The rounded value lies between the powers of two around the argument.\<close>

lemma round_pos_upper:
  assumes "0 < a" "max (ilog2 a) (- 1022) \<le> e"
  shows "round_pos a \<le> 2 powi (e + 1)"
proof -
  define E where "E = max (ilog2 a) (- 1022)"
  define u where "u = (2::rat) powi (E - 52)"
  have u: "0 < u" by (simp add: u_def)
  have top: "2 powi (E + 1) = of_int (2 ^ 53) * u" unfolding u_def by (rule powi_53)
  have "ilog2 a + 1 \<le> E + 1" by (simp add: E_def)
  then have "(2::rat) powi (ilog2 a + 1) \<le> 2 powi (E + 1)" by (simp only: powi_le_iff)
  moreover have "a < 2 powi (ilog2 a + 1)" using ilog2_bounds[OF assms(1)] by simp
  ultimately have "a < of_int (2 ^ 53) * u" unfolding top by linarith
  then have "a / u < of_int (2 ^ 53)" using u by (simp only: pos_divide_less_eq)
  then have "a / u \<le> of_int (2 ^ 53)" by (rule less_imp_le)
  then have "roundTiesToEven (a / u) \<le> roundTiesToEven (of_int (2 ^ 53))"
    by (rule roundTiesToEven_mono)
  then have "roundTiesToEven (a / u) \<le> 2 ^ 53" by (simp only: roundTiesToEven_of_int)
  then have "(of_int (roundTiesToEven (a / u)) :: rat) \<le> of_int (2 ^ 53)" by (simp only: of_int_le_iff)
  then have "of_int (roundTiesToEven (a / u)) * u \<le> of_int (2 ^ 53) * u"
    using u by (simp only: mult_le_cancel_right_pos)
  then have "round_pos a \<le> 2 powi (E + 1)"
    unfolding top by (simp only: round_pos_def ulp_def E_def[symmetric] u_def[symmetric])
  moreover have "(2::rat) powi (E + 1) \<le> 2 powi (e + 1)"
    using assms(2) by (simp add: powi_le_iff E_def)
  ultimately show ?thesis by (rule order_trans)
qed

lemma round_pos_lower:
  assumes "2 powi e \<le> a" "- 1022 \<le> e"
  shows "2 powi e \<le> round_pos a"
proof -
  have "(0::rat) < 2 powi e" by simp
  then have a: "0 < a" using assms(1) by linarith
  define E where "E = max (ilog2 a) (- 1022)"
  define u where "u = (2::rat) powi (E - 52)"
  have u: "0 < u" by (simp add: u_def)
  have bot: "2 powi E = of_int (2 ^ 52) * u" unfolding u_def by (rule powi_52)
  have "(2::rat) powi e < 2 powi (ilog2 a + 1)" using ilog2_bounds[OF a] assms(1) by linarith
  then have "e < ilog2 a + 1" by (simp only: powi_less_iff)
  then have el: "e \<le> ilog2 a" by simp
  then have E: "E = ilog2 a" using assms(2) by (simp add: E_def)
  have "2 powi E \<le> a" using ilog2_bounds[OF a] by (simp only: E)
  then have "of_int (2 ^ 52) * u \<le> a" unfolding bot .
  then have "of_int (2 ^ 52) \<le> a / u" using u by (simp only: pos_le_divide_eq)
  then have "roundTiesToEven (of_int (2 ^ 52)) \<le> roundTiesToEven (a / u)"
    by (rule roundTiesToEven_mono)
  then have "2 ^ 52 \<le> roundTiesToEven (a / u)" by (simp only: roundTiesToEven_of_int)
  then have "(of_int (2 ^ 52) :: rat) \<le> of_int (roundTiesToEven (a / u))" by (simp only: of_int_le_iff)
  then have "of_int (2 ^ 52) * u \<le> of_int (roundTiesToEven (a / u)) * u"
    using u by (simp only: mult_le_cancel_right_pos)
  then have "2 powi E \<le> round_pos a"
    unfolding bot by (simp only: round_pos_def ulp_def E_def[symmetric] u_def[symmetric])
  moreover have "(2::rat) powi e \<le> 2 powi E" using el by (simp only: powi_le_iff E)
  ultimately show ?thesis by (rule order_trans[rotated])
qed

lemma round_pos_mono:
  assumes "0 < x" "x \<le> y"
  shows "round_pos x \<le> round_pos y"
proof -
  have y: "0 < y" using assms by linarith
  let ?Ex = "max (ilog2 x) (- 1022)"
  let ?Ey = "max (ilog2 y) (- 1022)"
  have le: "?Ex \<le> ?Ey" using ilog2_mono[OF assms] by simp
  show ?thesis
  proof (cases "?Ex = ?Ey")
    case True
    have "x / ulp y \<le> y / ulp y" using assms(2) ulp_pos[of y] by (simp add: divide_right_mono)
    then have "roundTiesToEven (x / ulp y) \<le> roundTiesToEven (y / ulp y)"
      by (rule roundTiesToEven_mono)
    then have "(of_int (roundTiesToEven (x / ulp y)) :: rat) \<le> of_int (roundTiesToEven (y / ulp y))"
      by (simp only: of_int_le_iff)
    then have "of_int (roundTiesToEven (x / ulp y)) * ulp y \<le> of_int (roundTiesToEven (y / ulp y)) * ulp y"
      using ulp_pos[of y] by (auto intro: mult_right_mono)
    moreover have "ulp x = ulp y" using True by (simp add: ulp_def)
    ultimately show ?thesis by (simp add: round_pos_def)
  next
    case False
    then have lt: "?Ex < ?Ey" using le by linarith
    then have Ey: "?Ey = ilog2 y" and n: "- 1022 \<le> ilog2 y"
      by (simp_all add: max_def split: if_splits)
    have "round_pos x \<le> 2 powi (?Ex + 1)"
      by (rule round_pos_upper[OF assms(1)]) simp
    moreover have "?Ex + 1 \<le> ilog2 y" using lt Ey by linarith
    then have "(2::rat) powi (?Ex + 1) \<le> 2 powi ilog2 y" by (simp only: powi_le_iff)
    moreover have "2 powi ilog2 y \<le> round_pos y"
      using round_pos_lower[of "ilog2 y" y] ilog2_bounds[OF y] n by simp
    ultimately show ?thesis by linarith
  qed
qed

lemma round_pos_zero: "round_pos 0 = 0"
  using roundTiesToEven_of_int[of 0] by (simp add: round_pos_def)

lemma round_pos_on_grid:
  assumes "max (ilog2 y) (- 1022) = E" "y = of_int n * 2 powi (E - 52)"
  shows "round_pos y = y"
proof -
  define u where "u = (2::rat) powi (E - 52)"
  have u: "u \<noteq> 0" by (simp add: u_def)
  have "ulp y = u" by (simp add: ulp_def assms(1) u_def)
  moreover have "y / u = of_int n" using assms(2) u by (simp add: u_def)
  ultimately show ?thesis
    using assms(2) by (simp add: round_pos_def roundTiesToEven_of_int u_def)
qed

lemma round_pos_idem:
  assumes "0 < a"
  shows "round_pos (round_pos a) = round_pos a"
proof -
  define E where "E = max (ilog2 a) (- 1022)"
  define y where "y = round_pos a"
  have E: "- 1022 \<le> E" by (simp add: E_def)
  have grid: "y = of_int (roundTiesToEven (a / 2 powi (E - 52))) * 2 powi (E - 52)"
    by (simp add: y_def round_pos_def ulp_def E_def)
  have nonneg: "0 \<le> y" using round_pos_nonneg[of a] assms by (simp add: y_def)
  have upper: "y \<le> 2 powi (E + 1)"
    unfolding y_def by (rule round_pos_upper[OF assms]) (simp add: E_def)
  consider (zero) "y = 0" | (top) "y = 2 powi (E + 1)" | (inside) "0 < y" "y < 2 powi (E + 1)"
    using nonneg upper by linarith
  then have "round_pos y = y"
  proof cases
    case zero
    then show ?thesis by (simp add: round_pos_zero)
  next
    case top
    have "(2::rat) powi (E + 1) < 2 powi (E + 1 + 1)" by (simp add: powi_less_iff)
    then have "ilog2 y = E + 1" using top by (intro ilog2_unique) simp_all
    then have m: "max (ilog2 y) (- 1022) = E + 1" using E by simp
    have "y = of_int (2 ^ 52) * 2 powi (E + 1 - 52)" unfolding top by (rule powi_52)
    with m show ?thesis by (rule round_pos_on_grid)
  next
    case inside
    have "max (ilog2 y) (- 1022) = E"
    proof (cases "- 1022 \<le> ilog2 a")
      case True
      then have Ea: "E = ilog2 a" by (simp add: E_def)
      have "2 powi E \<le> a" using ilog2_bounds[OF assms] by (simp add: Ea)
      then have "2 powi E \<le> y" unfolding y_def using E by (rule round_pos_lower)
      then have "ilog2 y = E" using inside(2) by (rule ilog2_unique)
      then show ?thesis using E by simp
    next
      case False
      then have Ea: "E = - 1022" by (simp add: E_def)
      have "ilog2 y < E + 1" using inside by (rule ilog2_less)
      then show ?thesis by (simp add: Ea)
    qed
    then show ?thesis using grid by (rule round_pos_on_grid)
  qed
  then show ?thesis by (simp add: y_def)
qed

lemma round_double_pos:
  "0 < x \<Longrightarrow> round_double x = (if 2 ^ 1024 \<le> round_pos x then PosInf else Fin (round_pos x))"
  by (simp add: round_double_def Let_def)

lemma round_double_idem:
  assumes "0 \<le> x" "round_double x = Fin y"
  shows "round_double y = Fin y \<and> 0 \<le> y"
proof (cases "x = 0")
  case True
  then show ?thesis using assms(2) by (auto simp: round_double_def)
next
  case False
  then have x: "0 < x" using assms(1) by simp
  have y: "y = round_pos x" and fin: "\<not> 2 ^ 1024 \<le> round_pos x"
    using assms(2) by (auto simp: round_double_pos[OF x] split: if_splits)
  have nonneg: "0 \<le> y" using round_pos_nonneg[of x] x by (simp add: y)
  show ?thesis
  proof (cases "y = 0")
    case True
    then show ?thesis by (simp add: round_double_def)
  next
    case False
    then have "0 < y" using nonneg by simp
    moreover have "round_pos y = y" using round_pos_idem[OF x] by (simp add: y)
    ultimately show ?thesis using fin nonneg by (simp add: round_double_pos y)
  qed
qed

lemma round_double_mono:
  assumes "0 \<le> x" "x \<le> z" "round_double x = Fin a"
  shows "round_double z = PosInf \<or> (\<exists>b. round_double z = Fin b \<and> a \<le> b)"
proof (cases "z = 0")
  case True
  then have "x = 0" using assms by simp
  then show ?thesis using assms(3) True by (auto simp: round_double_def)
next
  case False
  then have z: "0 < z" using assms by linarith
  have "a \<le> round_pos z"
  proof (cases "x = 0")
    case True
    then have "a = 0" using assms(3) by (simp add: round_double_def)
    then show ?thesis using round_pos_nonneg[of z] z by simp
  next
    case False
    then have x: "0 < x" using assms(1) by simp
    have "a = round_pos x"
      using assms(3) by (auto simp: round_double_pos[OF x] split: if_splits)
    then show ?thesis using round_pos_mono[OF x assms(2)] by simp
  qed
  then show ?thesis by (simp add: round_double_pos[OF z])
qed

lemma round_double_small:
  assumes "0 \<le> x" "x < 2 ^ 46"
  shows "\<exists>y. round_double x = Fin y \<and> \<bar>y - x\<bar> \<le> 1 / 256 \<and> 0 \<le> y"
proof (cases "x = 0")
  case True
  then show ?thesis by (simp add: round_double_def)
next
  case False
  then have x: "0 < x" using assms(1) by simp
  have "x < 2 powi 46" using assms(2) by simp
  then have "ilog2 x < 46" using x by (intro ilog2_less)
  then have "max (ilog2 x) (- 1022) - 52 \<le> - 7" by simp
  then have "(2::rat) powi (max (ilog2 x) (- 1022) - 52) \<le> 2 powi (- 7)"
    by (simp only: powi_le_iff)
  then have "ulp x \<le> 1 / 128" by (simp add: ulp_def)
  then have err: "\<bar>round_pos x - x\<bar> \<le> 1 / 256" using round_pos_error[of x] by linarith
  then have "round_pos x < 2 ^ 46 + 1" using assms(2) by linarith
  moreover have "(2::rat) ^ 46 + 1 \<le> 2 ^ 1024" by simp
  ultimately have "\<not> 2 ^ 1024 \<le> round_pos x" by linarith
  then have "round_double x = Fin (round_pos x)" by (simp add: round_double_pos[OF x])
  then show ?thesis using err round_pos_nonneg[of x] x by simp
qed

lemma cents_of_double:
  assumes "0 \<le> k" "of_int k / 100 < (2::rat) ^ 46" "round_double (of_int k / 100) = Fin y"
  shows "\<bar>y * 100 - of_int k\<bar> \<le> 100 / 256"
proof -
  have "0 \<le> (of_int k / 100 :: rat)" using assms(1) by simp
  from round_double_small[OF this assms(2)] assms(3)
  have "\<bar>y - of_int k / 100\<bar> \<le> 1 / 256" by auto
  then show ?thesis by (simp add: abs_le_iff field_simps)
qed

section \<open>Printing and reading an amount\<close>

lemma digit_cases: "0 \<le> n \<Longrightarrow> n < 10 \<Longrightarrow> n \<in> {0, 1, 2, 3, 4, 5, 6, 7, 8, 9 :: int}"
  by (simp, arith)

lemma digitChar_digit:
  assumes "0 \<le> n" "n < 10"
  shows "isDigit (digitChar n) \<and> (of_char (digitChar n) :: int) - 48 = n"
  using digit_cases[OF assms] by (auto simp: digitChar_def isDigit_def)

lemma digitsValue_snoc: "digitsValue (ds @ [c]) = 10 * digitsValue ds + (of_char c - 48)"
  by (simp add: digitsValue_def)

lemma decimalDigits_value:
  "0 \<le> n \<Longrightarrow> list_all isDigit (decimalDigits n) \<and> digitsValue (decimalDigits n) = n
     \<and> decimalDigits n \<noteq> []"
proof (induction n rule: decimalDigits.induct)
  case (1 n)
  show ?case
  proof (cases "n < 10")
    case True
    then show ?thesis
      using digitChar_digit[of n] "1.prems"
      by (simp add: decimalDigits_small digitsValue_def)
  next
    case False
    then have big: "10 \<le> n" by simp
    have m: "0 \<le> n mod 10" "n mod 10 < 10" by simp_all
    have "0 \<le> n div 10" using "1.prems" by simp
    from "1.IH"[OF False this] digitChar_digit[OF m]
    show ?thesis
      by (simp add: decimalDigits_large[OF big] digitsValue_snoc)
  qed
qed

lemma digitsValue_zeros: "digitsValue (replicate k CHR ''0'' @ ds) = digitsValue ds"
proof -
  have "foldl (\<lambda>n c. 10 * n + (of_char c - 48)) (0::int) (replicate k CHR ''0'') = 0"
    by (induction k) simp_all
  then show ?thesis by (simp add: digitsValue_def)
qed

lemma isDigit_plain:
  "isDigit c \<Longrightarrow> \<not> isWhiteSpace c \<and> c \<noteq> CHR ''-'' \<and> c \<noteq> CHR ''+'' \<and> c \<noteq> CHR ''I'' \<and> c \<noteq> CHR ''.''"
  by (auto simp: isDigit_def isWhiteSpace_def)

lemma unsignedLiteral_fraction:
  assumes "list_all isDigit ip" "list_all isDigit fp" "ip \<noteq> []"
  shows "unsignedLiteral (ip @ CHR ''.'' # fp)
           = Some (of_int (digitsValue (ip @ fp)) * 10 powi (- int (length fp)))"
proof -
  have d: "\<not> isDigit CHR ''.''" by (simp add: isDigit_def)
  have ip: "\<forall>x\<in>set ip. isDigit x" and fp: "\<forall>x\<in>set fp. isDigit x"
    using assms by (simp_all add: list_all_iff)
  have t: "takeWhile isDigit (ip @ CHR ''.'' # fp) = ip"
    using ip d by (simp add: takeWhile_append2)
  have r: "dropWhile isDigit (ip @ CHR ''.'' # fp) = CHR ''.'' # fp"
    using ip d by (simp add: dropWhile_append2)
  have tf: "takeWhile isDigit fp = fp" using fp by (simp add: takeWhile_eq_all_conv)
  have df: "dropWhile isDigit fp = []" using fp by simp
  show ?thesis
    using assms(3) by (simp add: unsignedLiteral_def t r tf df exponentPart_def)
qed

lemma parseFloat_fixed2:
  assumes "0 \<le> w"
  shows "parseFloat (fixed2 w) = round_double (of_int w / 100)"
proof -
  define m where "m = replicate (3 - length (decimalDigits w)) CHR ''0'' @ decimalDigits w"
  define ip where "ip = take (length m - 2) m"
  define fp where "fp = drop (length m - 2) m"
  from decimalDigits_value[OF assms]
  have dig: "list_all isDigit (decimalDigits w)" and val: "digitsValue (decimalDigits w) = w"
    by simp_all
  have zero: "isDigit CHR ''0''" by (simp add: isDigit_def)
  have all: "list_all isDigit m"
    using dig zero by (auto simp: m_def list_all_iff set_replicate_conv_if split: if_splits)
  have len: "3 \<le> length m" by (simp add: m_def)
  have mv: "digitsValue m = w" by (simp add: m_def digitsValue_zeros val)
  have split: "ip @ fp = m" by (simp add: ip_def fp_def)
  have ipd: "list_all isDigit ip" and fpd: "list_all isDigit fp"
    using all by (auto simp: ip_def fp_def list_all_iff dest: in_set_takeD in_set_dropD)
  have ipn: "ip \<noteq> []" using len by (auto simp: ip_def)
  have fpl: "length fp = 2" using len by (simp add: fp_def)
  have shape: "fixed2 w = ip @ CHR ''.'' # fp"
    by (simp add: fixed2_def Let_def m_def ip_def fp_def)
  obtain c cs where ipc: "ip = c # cs" using ipn by (cases ip) auto
  have c: "isDigit c" using ipd by (simp add: ipc)
  note plain = isDigit_plain[OF c]
  have lit: "unsignedLiteral (ip @ CHR ''.'' # fp) = Some (of_int w / 100)"
    using unsignedLiteral_fraction[OF ipd fpd ipn] by (simp add: split mv fpl)
  have inf: "take 8 (ip @ CHR ''.'' # fp) \<noteq> ''Infinity''"
    using plain by (simp add: ipc)
  show ?thesis
    unfolding shape parseFloat_def
    using plain lit inf by (simp add: ipc Let_def)
qed

section \<open>The step of a two-decimal price\<close>

lemma toFixed2_nonneg:
  "0 \<le> x \<Longrightarrow> x < 10 ^ 21 \<Longrightarrow> toFixed2 (Fin x) = Fixed (fixed2 \<lfloor>x * 100 + 1 / 2\<rfloor>)"
  by simp

lemma newPrice_between:
  assumes "a < b" "round_double a = Fin a" "0 \<le> a" "0 \<le> i"
  shows "\<exists>n. newPrice (Fin i) (Fin a) (Fin b) = Fin n \<and> a \<le> n \<and> n \<le> b"
proof (cases "js_lt (js_sub (Fin b) (Fin a)) (Fin i)")
  case True
  then show ?thesis using assms(1) by (simp add: newPrice_def)
next
  case False
  have "a \<le> a + i" using assms(4) by simp
  from round_double_mono[OF assms(3) this assms(2)]
  have "\<exists>n. js_min (round_double (a + i)) (Fin b) = Fin n \<and> a \<le> n \<and> n \<le> b"
    using assms(1) by auto
  then show ?thesis using False by (simp add: newPrice_def)
qed

lemma issued_increment:
  "issued s (snd (incrementVariantPrice rt inc v s)) = mutationsFor inc v"
  by (rule issued_append) (rule sent_increment)

text \<open>
  Claim C2, as amended. Let the price and the compare-at price of a variant be the
  doubles of two-decimal amounts, \<open>c\<close> and \<open>t\<close> hundredths, with \<open>0 \<le> c \<le> t\<close> and \<open>t\<close> below
  \<open>2 ^ 46\<close> units, and let the increment be a number that is not negative. Then every
  request the Stepper issues is the price-update mutation of the variant with a
  two-decimal text of some \<open>w\<close> hundredths, where \<open>c \<le> w \<le> t\<close>: the price written is not below
  the price read and not above the compare-at price. The text written reads back as the
  double of \<open>w\<close> hundredths, so that the next cycle finds the variant as this one did.
\<close>

theorem written_price_between:
  assumes cur: "parseFloat (price v) = round_double (of_int c / 100)"
    and cmp: "parseFloat (compareAtPrice v) = round_double (of_int t / 100)"
    and c: "0 \<le> c" and ct: "c \<le> t" and t: "t < 100 * 2 ^ 46"
    and inc: "inc = Fin i" "0 \<le> i"
  shows "\<forall>r \<in> set (issued s (snd (incrementVariantPrice rt inc v s))).
           \<exists>w. r = UPDATE_PRODUCT_VARIANT_MUTATION (variant_id v) (Fixed (fixed2 w))
               \<and> c \<le> w \<and> w \<le> t
               \<and> parseFloat (fixed2 w) = round_double (of_int w / 100)"
proof (cases "js_lt (parseFloat (price v)) (parseFloat (compareAtPrice v))")
  case False
  then show ?thesis by (simp add: issued_increment mutationsFor_def)
next
  case True
  have "(of_int t :: rat) < of_int (100 * 2 ^ 46)" using t by (simp only: of_int_less_iff)
  then have tb: "(of_int t / 100 :: rat) < 2 ^ 46" by simp
  have "(of_int c :: rat) \<le> of_int t" using ct by (simp only: of_int_le_iff)
  then have cb: "(of_int c / 100 :: rat) < 2 ^ 46" using tb by linarith
  have c0: "0 \<le> (of_int c / 100 :: rat)" and t0: "0 \<le> (of_int t / 100 :: rat)" using c ct by simp_all
  obtain a where a: "round_double (of_int c / 100) = Fin a" and a0: "0 \<le> a"
    using round_double_small[OF c0 cb] by blast
  obtain b where b: "round_double (of_int t / 100) = Fin b" and b0: "0 \<le> b"
    and berr: "\<bar>b - of_int t / 100\<bar> \<le> 1 / 256"
    using round_double_small[OF t0 tb] by blast
  have t0': "0 \<le> t" using c ct by simp
  have ac: "of_int c - 100 / 256 \<le> a * 100"
    using cents_of_double[OF c cb a] by (simp only: abs_le_iff) linarith
  have bt: "b * 100 \<le> of_int t + 100 / 256"
    using cents_of_double[OF t0' tb b] by (simp only: abs_le_iff) linarith
  have ab: "a < b" using True by (simp add: cur cmp a b)
  have idem: "round_double a = Fin a" using round_double_idem[OF c0 a] by simp
  obtain n where n: "newPrice inc (Fin a) (Fin b) = Fin n" and an: "a \<le> n" and nb: "n \<le> b"
    using newPrice_between[OF ab idem a0 inc(2)] inc(1) by blast
  define w where "w = \<lfloor>n * 100 + 1 / 2\<rfloor>"
  have n0: "0 \<le> n" using a0 an by simp
  have "b < 2 ^ 46 + 1" using berr tb by linarith
  then have "n < 2 ^ 46 + 1" using nb by linarith
  moreover have "(2::rat) ^ 46 + 1 \<le> 10 ^ 21" by simp
  ultimately have nsmall: "n < 10 ^ 21" by linarith
  have printed: "toFixed2 (Fin n) = Fixed (fixed2 w)" using toFixed2_nonneg[OF n0 nsmall] by (simp add: w_def)
  have "of_int c \<le> n * 100 + 1 / 2" using ac an by linarith
  then have cw: "c \<le> w" by (simp add: w_def le_floor_iff)
  have "n * 100 + 1 / 2 < of_int t + 1" using bt nb by linarith
  then have "n * 100 + 1 / 2 < of_int (t + 1)" by simp
  then have "w < t + 1" by (simp only: w_def floor_less_iff)
  then have wt: "w \<le> t" by simp
  have w0: "0 \<le> w" using c cw by simp
  have np: "newPrice inc (parseFloat (price v)) (parseFloat (compareAtPrice v)) = Fin n"
    by (simp only: cur cmp a b n)
  have "mutationsFor inc v = [UPDATE_PRODUCT_VARIANT_MUTATION (variant_id v) (toFixed2 (Fin n))]"
    using True by (simp only: mutationsFor_def np if_True)
  then have "mutationsFor inc v = [UPDATE_PRODUCT_VARIANT_MUTATION (variant_id v) (Fixed (fixed2 w))]"
    by (simp only: printed)
  then show ?thesis using cw wt parseFloat_fixed2[OF w0] by (auto simp: issued_increment)
qed

theorem written_price_between_witness:
  "parseFloat ''80.00'' = round_double (of_int 8000 / 100)
   \<and> parseFloat ''100.00'' = round_double (of_int 10000 / 100)
   \<and> issued (fresh (catalogStore [\<lparr>variant_id = ''v1'', price = ''80.00'', compareAtPrice = ''100.00''\<rparr>]))
        (snd (incrementVariantPrice storeRuntime increment_index
           \<lparr>variant_id = ''v1'', price = ''80.00'', compareAtPrice = ''100.00''\<rparr>
           (fresh (catalogStore [\<lparr>variant_id = ''v1'', price = ''80.00'', compareAtPrice = ''100.00''\<rparr>]))))
      = [UPDATE_PRODUCT_VARIANT_MUTATION ''v1'' (Fixed ''90.00'')]
   \<and> (\<exists>w. Fixed ''90.00'' = Fixed (fixed2 w) \<and> 8000 \<le> w \<and> w \<le> 10000
          \<and> parseFloat (fixed2 w) = round_double (of_int w / 100))"
proof -
  let ?v = "\<lparr>variant_id = ''v1'', price = ''80.00'', compareAtPrice = ''100.00''\<rparr>"
  let ?s = "fresh (catalogStore [?v])"
  have h1: "parseFloat (price ?v) = round_double (of_int 8000 / 100)" by (simp add: eval)
  have h2: "parseFloat (compareAtPrice ?v) = round_double (of_int 10000 / 100)" by (simp add: eval)
  have i: "issued ?s (snd (incrementVariantPrice storeRuntime increment_index ?v ?s))
      = [UPDATE_PRODUCT_VARIANT_MUTATION ''v1'' (Fixed ''90.00'')]"
    by (simp add: eval)
  have "\<forall>r \<in> set (issued ?s (snd (incrementVariantPrice storeRuntime increment_index ?v ?s))).
           \<exists>w. r = UPDATE_PRODUCT_VARIANT_MUTATION (variant_id ?v) (Fixed (fixed2 w))
               \<and> 8000 \<le> w \<and> w \<le> 10000
               \<and> parseFloat (fixed2 w) = round_double (of_int w / 100)"
    by (rule written_price_between[OF h1 h2, where i = 10])
       (simp_all add: increment_index_def)
  then have "\<exists>w. Fixed ''90.00'' = Fixed (fixed2 w) \<and> 8000 \<le> w \<and> w \<le> 10000
          \<and> parseFloat (fixed2 w) = round_double (of_int w / 100)"
    unfolding i by simp
  then show ?thesis using h1 h2 i by simp
qed

text \<open>
  Claim C2 as stated fails on the code in two ways. A compare-at price with a third
  decimal: at the price \<open>99.00\<close> with the compare-at price \<open>99.996\<close> the Stepper writes
  \<open>100.00\<close>, which is above the compare-at price. A price beyond the range in which a
  double tells hundredths apart: at \<open>100000000000000.00\<close> with the compare-at price
  \<open>100000000000000.01\<close> the Stepper writes \<open>100000000000000.02\<close>.
\<close>

theorem written_price_counterexample:
  "js_lt (parseFloat ''99.00'') (parseFloat ''99.996'')
   \<and> issued (fresh emptyStore)
        (snd (incrementVariantPrice storeRuntime increment_index
           \<lparr>variant_id = ''v1'', price = ''99.00'', compareAtPrice = ''99.996''\<rparr> (fresh emptyStore)))
      = [UPDATE_PRODUCT_VARIANT_MUTATION ''v1'' (Fixed ''100.00'')]
   \<and> js_lt (parseFloat ''99.996'') (parseFloat ''100.00'')
   \<and> js_lt (parseFloat ''100000000000000.00'') (parseFloat ''100000000000000.01'')
   \<and> issued (fresh emptyStore)
        (snd (incrementVariantPrice storeRuntime increment_index
           \<lparr>variant_id = ''v2'', price = ''100000000000000.00'', compareAtPrice = ''100000000000000.01''\<rparr>
           (fresh emptyStore)))
      = [UPDATE_PRODUCT_VARIANT_MUTATION ''v2'' (Fixed ''100000000000000.02'')]
   \<and> fixed2 10000000000000001 = ''100000000000000.01''
   \<and> fixed2 10000000000000002 = ''100000000000000.02''"
proof -
  have a: "js_lt (parseFloat ''99.00'') (parseFloat ''99.996'')" by (simp add: eval)
  have b: "issued (fresh emptyStore)
        (snd (incrementVariantPrice storeRuntime increment_index
           \<lparr>variant_id = ''v1'', price = ''99.00'', compareAtPrice = ''99.996''\<rparr> (fresh emptyStore)))
      = [UPDATE_PRODUCT_VARIANT_MUTATION ''v1'' (Fixed ''100.00'')]"
    by (simp add: eval)
  have c: "js_lt (parseFloat ''99.996'') (parseFloat ''100.00'')" by (simp add: eval)
  have d: "js_lt (parseFloat ''100000000000000.00'') (parseFloat ''100000000000000.01'')"
    by (simp add: eval)
  have e: "issued (fresh emptyStore)
        (snd (incrementVariantPrice storeRuntime increment_index
           \<lparr>variant_id = ''v2'', price = ''100000000000000.00'', compareAtPrice = ''100000000000000.01''\<rparr>
           (fresh emptyStore)))
      = [UPDATE_PRODUCT_VARIANT_MUTATION ''v2'' (Fixed ''100000000000000.02'')]"
    by (simp add: eval)
  have f: "fixed2 10000000000000001 = ''100000000000000.01''" by (simp add: eval_text)
  have g: "fixed2 10000000000000002 = ''100000000000000.02''" by (simp add: eval_text)
  show ?thesis using a b c d e f g by (intro conjI)
qed

end
